theory Spec2Isabelle
  imports Complex_Main
begin

section \<open>JavaScript values\<close>

text \<open>
  The client code under \<^verbatim>\<open>src/frontend\<close> works on values that come out of
  \<^verbatim>\<open>JSON.parse\<close> (the body of the \<^verbatim>\<open>/detect\<close> response) and on the objects it
  builds itself. A string is the list of its UTF-16 code units, so that the dash
  U+2014 of the generic recommendation and the white space removed by \<^verbatim>\<open>trim\<close> are
  what they are in the browser. A number is NaN, an infinity or a finite rational:
  \<^verbatim>\<open>normalizeResponse\<close> does no arithmetic, it only tests numbers for truthiness and
  passes them on, so binary rounding plays no role there (the sign of zero is not kept).
  An object is the list of its own properties; reading a property takes the first
  entry of that name.
\<close>

type_synonym jsstring = "nat list"

definition js :: "string \<Rightarrow> jsstring" where
  "js s = map of_char s"

datatype jsnum = NaN | PosInfinity | NegInfinity | Fin rat

datatype jsval =
    JUndefined
  | JNull
  | JBool bool
  | JNum jsnum
  | JStr jsstring
  | JArr "jsval list"
  | JObj "(jsstring \<times> jsval) list"

text \<open>
  The errors the modelled code can raise or reject with. \<open>TypeError\<close> is what the
  engine throws on a property read from \<^verbatim>\<open>null\<close> or \<^verbatim>\<open>undefined\<close> and on a
  failed conversion to a primitive; the others stand for the \<^verbatim>\<open>Error\<close> objects the
  code creates or is handed:
  \<open>NoFileToUpload\<close> for \<^verbatim>\<open>'No file to upload'\<close>,
  \<open>ResultsSectionMissing\<close> for \<^verbatim>\<open>'resultsSection missing from DOM'\<close>,
  \<open>UploadTimeout\<close> for \<^verbatim>\<open>'Upload timeout'\<close>,
  \<open>UploadFailed status\<close> for \<^verbatim>\<open>'Upload failed (status N)'\<close> and \<^verbatim>\<open>'Upload failed: N'\<close>,
  \<open>NetworkError\<close> for \<^verbatim>\<open>'Network error during upload'\<close>,
  \<open>SendError\<close> for whatever \<^verbatim>\<open>xhr.send\<close> threw and \<open>DecodeError\<close> for the
  rejection of \<^verbatim>\<open>createImageBitmap\<close> or of the \<^verbatim>\<open>Image\<close> fallback.
\<close>

datatype js_error =
    TypeError
  | NoFileToUpload
  | ResultsSectionMissing
  | DecodeError
  | UploadTimeout
  | UploadFailed nat
  | NetworkError
  | SendError

text \<open>
  Two conversions of the engine are large algorithms of their own and are not part
  of the repository: printing a number (\<^verbatim>\<open>Number::toString\<close>) and reading a number
  from a string (\<^verbatim>\<open>StringToNumber\<close>). The model takes them as parameters.
\<close>

record runtime =
  Number_toString :: "jsnum \<Rightarrow> jsstring"
  StringToNumber :: "jsstring \<Rightarrow> jsnum"

fun truthy :: "jsval \<Rightarrow> bool" where
  "truthy JUndefined = False"
| "truthy JNull = False"
| "truthy (JBool b) = b"
| "truthy (JNum n) = (n \<noteq> NaN \<and> n \<noteq> Fin 0)"
| "truthy (JStr s) = (s \<noteq> [])"
| "truthy (JArr xs) = True"
| "truthy (JObj kvs) = True"

text \<open>\<^verbatim>\<open>a || b\<close> on values whose evaluation cannot throw.\<close>

definition js_or :: "jsval \<Rightarrow> jsval \<Rightarrow> jsval" where
  "js_or a b = (if truthy a then a else b)"

text \<open>
  \<^verbatim>\<open>v.k\<close> for a fixed name \<open>k\<close> on a value that is neither \<^verbatim>\<open>null\<close> nor
  \<^verbatim>\<open>undefined\<close>. None of the names the code reads is a member of
  \<^verbatim>\<open>Object.prototype\<close>, \<^verbatim>\<open>Array.prototype\<close> or \<^verbatim>\<open>String.prototype\<close>, so only
  an object's own properties can answer.
\<close>

fun get_prop :: "jsval \<Rightarrow> jsstring \<Rightarrow> jsval" where
  "get_prop (JObj kvs) k = (case map_of kvs k of Some v \<Rightarrow> v | None \<Rightarrow> JUndefined)"
| "get_prop v k = JUndefined"

fun isArray :: "jsval \<Rightarrow> bool" where
  "isArray (JArr xs) = True"
| "isArray v = False"

fun elems :: "jsval \<Rightarrow> jsval list" where
  "elems (JArr xs) = xs"
| "elems v = []"

text \<open>The first error of a list of results, or all the values.\<close>

fun sequence :: "('e + 'a) list \<Rightarrow> 'e + 'a list" where
  "sequence [] = Inr []"
| "sequence (r # rs) =
     (case r of
        Inl e \<Rightarrow> Inl e
      | Inr x \<Rightarrow> (case sequence rs of Inl e \<Rightarrow> Inl e | Inr xs \<Rightarrow> Inr (x # xs)))"

fun join_with :: "jsstring \<Rightarrow> jsstring list \<Rightarrow> jsstring" where
  "join_with sep [] = []"
| "join_with sep [s] = s"
| "join_with sep (s # t # ts) = s @ sep @ join_with sep (t # ts)"

text \<open>
  \<^verbatim>\<open>String(v)\<close>. An array prints its elements joined by commas, \<^verbatim>\<open>null\<close> and
  \<^verbatim>\<open>undefined\<close> elements as the empty string. An object prints as
  \<^verbatim>\<open>[object Object]\<close>, unless it has an own property \<^verbatim>\<open>toString\<close>: a parsed value
  is never callable, so the conversion to a primitive then finds no method that
  returns one and throws.
\<close>

fun ToString :: "runtime \<Rightarrow> jsval \<Rightarrow> js_error + jsstring" where
  "ToString rt JUndefined = Inr (js ''undefined'')"
| "ToString rt JNull = Inr (js ''null'')"
| "ToString rt (JBool b) = Inr (if b then js ''true'' else js ''false'')"
| "ToString rt (JNum n) = Inr (Number_toString rt n)"
| "ToString rt (JStr s) = Inr s"
| "ToString rt (JArr xs) =
     (case sequence (map (\<lambda>x. if x = JUndefined \<or> x = JNull then Inr [] else ToString rt x) xs) of
        Inl e \<Rightarrow> Inl e
      | Inr ss \<Rightarrow> Inr (join_with (js '','') ss))"
| "ToString rt (JObj kvs) =
     (if map_of kvs (js ''toString'') = None then Inr (js ''[object Object]'') else Inl TypeError)"

text \<open>\<^verbatim>\<open>Number(v)\<close>: arrays and objects go through their string.\<close>

fun ToNumber :: "runtime \<Rightarrow> jsval \<Rightarrow> js_error + jsnum" where
  "ToNumber rt JUndefined = Inr NaN"
| "ToNumber rt JNull = Inr (Fin 0)"
| "ToNumber rt (JBool b) = Inr (Fin (if b then 1 else 0))"
| "ToNumber rt (JNum n) = Inr n"
| "ToNumber rt (JStr s) = Inr (StringToNumber rt s)"
| "ToNumber rt v =
     (case ToString rt v of Inl e \<Rightarrow> Inl e | Inr s \<Rightarrow> Inr (StringToNumber rt s))"

text \<open>
  \<^verbatim>\<open>String.prototype.trim\<close> removes the code units of \<^verbatim>\<open>WhiteSpace\<close> and
  \<^verbatim>\<open>LineTerminator\<close> from both ends.
\<close>

definition is_ws :: "nat \<Rightarrow> bool" where
  "is_ws c = (c \<in> set [9, 10, 11, 12, 13, 32, 160, 5760, 8232, 8233, 8239, 8287, 12288, 65279]
              \<or> (8192 \<le> c \<and> c \<le> 8202))"

definition trim :: "jsstring \<Rightarrow> jsstring" where
  "trim s = rev (dropWhile is_ws (rev (dropWhile is_ws s)))"

text \<open>
  The one computed read of the code is \<^verbatim>\<open>d.names[d.cls]\<close>. The key is the string of
  \<^verbatim>\<open>d.cls\<close>; an array or a string answers to a canonical index and to \<^verbatim>\<open>length\<close>,
  an object to its own properties. A key that names a member inherited from a
  prototype (such as \<^verbatim>\<open>constructor\<close>) would yield a function, which is outside
  these values.
\<close>

definition array_index :: "jsstring \<Rightarrow> nat option" where
  "array_index k =
     (if k \<noteq> [] \<and> list_all (\<lambda>c. 48 \<le> c \<and> c \<le> 57) k \<and> (if hd k = 48 then length k = 1 else True)
      then Some (foldl (\<lambda>a c. 10 * a + (c - 48)) 0 k) else None)"

fun get_computed :: "jsval \<Rightarrow> jsstring \<Rightarrow> jsval" where
  "get_computed (JObj kvs) k = (case map_of kvs k of Some v \<Rightarrow> v | None \<Rightarrow> JUndefined)"
| "get_computed (JArr xs) k =
     (if k = js ''length'' then JNum (Fin (of_nat (length xs)))
      else case array_index k of
             Some i \<Rightarrow> if i < length xs then xs ! i else JUndefined
           | None \<Rightarrow> JUndefined)"
| "get_computed (JStr s) k =
     (if k = js ''length'' then JNum (Fin (of_nat (length s)))
      else case array_index k of
             Some i \<Rightarrow> if i < length s then JStr [s ! i] else JUndefined
           | None \<Rightarrow> JUndefined)"
| "get_computed v k = JUndefined"

section \<open>The normalizer: \<^verbatim>\<open>normalizeResponse\<close> of \<^verbatim>\<open>script.js\<close>\<close>

text \<open>
  \<^verbatim>\<open>if (raw && raw.json && (raw.status || raw.res)) raw = raw.json;\<close>
\<close>

definition unwrap :: "jsval \<Rightarrow> jsval" where
  "unwrap raw =
     (if truthy raw \<and> truthy (get_prop raw (js ''json''))
         \<and> truthy (js_or (get_prop raw (js ''status'')) (get_prop raw (js ''res'')))
      then get_prop raw (js ''json'') else raw)"

text \<open>The chain of \<^verbatim>\<open>Array.isArray\<close> tests that picks the list of detections.\<close>

definition find_detected :: "jsval \<Rightarrow> jsval list" where
  "find_detected raw =
     (if isArray (get_prop raw (js ''detected_objects'')) then elems (get_prop raw (js ''detected_objects''))
      else if isArray (get_prop raw (js ''detected'')) then elems (get_prop raw (js ''detected''))
      else if isArray (get_prop raw (js ''objects'')) then elems (get_prop raw (js ''objects''))
      else if isArray (get_prop raw (js ''results'')) then elems (get_prop raw (js ''results''))
      else if isArray (get_prop raw (js ''items'')) then elems (get_prop raw (js ''items''))
      else if isArray raw then elems raw
      else [])"

text \<open>
  \<^verbatim>\<open>d.name || d.label || d.class || d.type || d.item || (d.names && d.names[d.cls]) || 'item'\<close>:
  the computed read, and with it the conversion of \<^verbatim>\<open>d.cls\<close> to a key, happens only
  when the five fixed names are all falsy and \<^verbatim>\<open>d.names\<close> is truthy.
\<close>

definition detection_name :: "runtime \<Rightarrow> jsval \<Rightarrow> js_error + jsval" where
  "detection_name rt d =
     (let fixed = js_or (js_or (js_or (js_or (get_prop d (js ''name'')) (get_prop d (js ''label'')))
                    (get_prop d (js ''class''))) (get_prop d (js ''type''))) (get_prop d (js ''item''))
      in if truthy fixed then Inr fixed
         else if \<not> truthy (get_prop d (js ''names'')) then Inr (JStr (js ''item''))
         else case ToString rt (get_prop d (js ''cls'')) of
                Inl e \<Rightarrow> Inl e
              | Inr k \<Rightarrow> Inr (js_or (get_computed (get_prop d (js ''names'')) k) (JStr (js ''item''))))"

definition detection_conf :: "jsval \<Rightarrow> jsval" where
  "detection_conf d =
     (if get_prop d (js ''conf'') \<noteq> JUndefined then get_prop d (js ''conf'')
      else if get_prop d (js ''confidence'') \<noteq> JUndefined then get_prop d (js ''confidence'')
      else if get_prop d (js ''score'') \<noteq> JUndefined then get_prop d (js ''score'')
      else if get_prop d (js ''probability'') \<noteq> JUndefined then get_prop d (js ''probability'')
      else JNum (Fin 0))"

definition detection_bbox :: "jsval \<Rightarrow> jsval" where
  "detection_bbox d =
     js_or (js_or (js_or (get_prop d (js ''bbox'')) (get_prop d (js ''xyxy''))) (get_prop d (js ''box''))) JNull"

text \<open>
  The callback of \<^verbatim>\<open>detected.map\<close>. Reading \<^verbatim>\<open>d.name\<close> from an element that is
  \<^verbatim>\<open>null\<close> or \<^verbatim>\<open>undefined\<close> throws.
\<close>

definition normalize_detection :: "runtime \<Rightarrow> jsval \<Rightarrow> js_error + jsval" where
  "normalize_detection rt d =
     (if d = JUndefined \<or> d = JNull then Inl TypeError
      else case detection_name rt d of
        Inl e \<Rightarrow> Inl e
      | Inr name \<Rightarrow>
          (case ToString rt (js_or name (JStr [])) of
             Inl e \<Rightarrow> Inl e
           | Inr s \<Rightarrow>
               (case ToNumber rt (js_or (detection_conf d) (JNum (Fin 0))) of
                  Inl e \<Rightarrow> Inl e
                | Inr n \<Rightarrow>
                    Inr (JObj [(js ''name'', JStr (trim s)), (js ''conf'', JNum n),
                               (js ''bbox'', detection_bbox d)]))))"

text \<open>The recommendations before the fallback.\<close>

definition find_recs :: "jsval \<Rightarrow> jsval list" where
  "find_recs raw =
     (if isArray (get_prop raw (js ''recommendations'')) then elems (get_prop raw (js ''recommendations''))
      else if isArray (get_prop raw (js ''recs'')) then elems (get_prop raw (js ''recs''))
      else if isArray (get_prop raw (js ''recommend'')) then elems (get_prop raw (js ''recommend''))
      else if truthy (get_prop raw (js ''recommendation'')) then [get_prop raw (js ''recommendation'')]
      else if truthy (get_prop raw (js ''message'')) then [get_prop raw (js ''message'')]
      else [])"

text \<open>
  The template \<^verbatim>\<open>`${d.name} \<close>U+2014\<^verbatim>\<open> Unknown: please consult local recycling rules`\<close>
  of the fallback; 8212 is the code unit of the dash.
\<close>

definition generic_suffix :: jsstring where
  "generic_suffix = js '' '' @ [8212] @ js '' Unknown: please consult local recycling rules''"

definition generic_rec :: "runtime \<Rightarrow> jsval \<Rightarrow> js_error + jsval" where
  "generic_rec rt d =
     (case ToString rt (get_prop d (js ''name'')) of
        Inl e \<Rightarrow> Inl e
      | Inr s \<Rightarrow> Inr (JStr (s @ generic_suffix)))"

definition null_default :: jsval where
  "null_default =
     JObj [(js ''success'', JBool False), (js ''detected_objects'', JArr []),
           (js ''recommendations'', JArr []), (js ''eco_points'', JNum (Fin 0)),
           (js ''carbon_saved_kg'', JNum (Fin 0))]"

definition normalizeResponse :: "runtime \<Rightarrow> jsval \<Rightarrow> js_error + jsval" where
  "normalizeResponse rt raw0 =
     (if \<not> truthy raw0 then Inr null_default
      else
        let raw = unwrap raw0 in
        case sequence (map (normalize_detection rt) (find_detected raw)) of
          Inl e \<Rightarrow> Inl e
        | Inr detected \<Rightarrow>
            (case (if find_recs raw = [] \<and> detected \<noteq> []
                   then sequence (map (generic_rec rt) detected)
                   else Inr (find_recs raw)) of
               Inl e \<Rightarrow> Inl e
             | Inr recs \<Rightarrow>
                 let eco_points =
                       (if get_prop raw (js ''eco_points'') \<noteq> JUndefined then get_prop raw (js ''eco_points'')
                        else js_or (js_or (get_prop raw (js ''points'')) (get_prop raw (js ''points_earned'')))
                               (JNum (Fin 0)));
                     carbon_saved_kg =
                       (if get_prop raw (js ''carbon_saved_kg'') \<noteq> JUndefined
                        then get_prop raw (js ''carbon_saved_kg'')
                        else js_or (get_prop raw (js ''carbon'')) (JNum (Fin 0)));
                     filename = js_or (js_or (get_prop raw (js ''filename'')) (get_prop raw (js ''file''))) (JStr [])
                 in Inr (JObj
                      [(js ''success'',
                          if get_prop raw (js ''success'') \<noteq> JUndefined then get_prop raw (js ''success'')
                          else JBool True),
                       (js ''detected_objects'', JArr detected),
                       (js ''recommendations'', JArr recs),
                       (js ''eco_points'', eco_points),
                       (js ''carbon_saved_kg'', carbon_saved_kg),
                       (js ''filename'', filename),
                       (js ''debug'',
                          js_or (get_prop raw (js ''debug''))
                            (JObj [(js ''model_loaded'', js_or (get_prop raw (js ''model_loaded'')) (JBool False)),
                                   (js ''detections_count'', JNum (Fin (of_nat (length detected))))]))])))"

text \<open>
  A runtime to run the model on examples. The examples never print a number and
  never read one from a string, so both conversions are left trivial here; every
  theorem below is proved for all runtimes.
\<close>

definition plain_runtime :: runtime where
  "plain_runtime = \<lparr>Number_toString = (\<lambda>n. []), StringToNumber = (\<lambda>s. NaN)\<rparr>"

section \<open>The codec: \<^verbatim>\<open>compressImage\<close> of \<^verbatim>\<open>analyze.js\<close> and \<^verbatim>\<open>maybeCompress\<close> of \<^verbatim>\<open>script.js\<close>\<close>

text \<open>
  A \<^verbatim>\<open>File\<close> or \<^verbatim>\<open>Blob\<close> has a size in bytes and a media type; \<open>blob_id\<close> stands
  for its bytes. Decoding and encoding are done by the browser: \<open>decode\<close> is what
  \<^verbatim>\<open>createImageBitmap\<close> (or the \<^verbatim>\<open>Image\<close> fallback) yields for a file, the width and
  height of the bitmap, or \<open>None\<close> when the promise rejects; \<open>toBlob file w h q\<close> is
  what \<^verbatim>\<open>canvas.toBlob(cb, 'image/jpeg', q)\<close> hands to its callback once the bitmap of
  \<open>file\<close> has been drawn on a canvas of \<open>w\<close> by \<open>h\<close> pixels, \<open>None\<close> for \<^verbatim>\<open>null\<close>.
  Creating the canvas and drawing on it are taken to succeed.

  \<^verbatim>\<open>analyze.js\<close> as it stands does not load: its \<^verbatim>\<open>renderResults\<close> is declared
  without \<^verbatim>\<open>async\<close> and uses \<^verbatim>\<open>await\<close>, a syntax error for the whole module. What
  is said here of \<^verbatim>\<open>compressImage\<close> and \<^verbatim>\<open>uploadFileWithProgress\<close> is said of these
  two functions as they are written; neither calls \<^verbatim>\<open>renderResults\<close>. The click
  handler of that file, which does, is not modelled.

  The qualities of the loop are exact rationals, where the browser has doubles.
  From 0.92 and from 0.9, the two qualities the loops start at, the doubles stay
  within \<open>1 / 10 ^ 15\<close> of the exact qualities and pass and fail the test
  \<^verbatim>\<open>quality > 0.35\<close> in the same rounds (\<open>quality_in_doubles_92\<close> and
  \<open>quality_in_doubles_90\<close> below), so the loops make the same calls, at qualities
  that differ by the rounding only.
\<close>

record blob =
  blob_size :: nat
  blob_type :: string
  blob_id :: nat

record codec_env =
  decode :: "blob \<Rightarrow> (nat \<times> nat) option"
  toBlob :: "blob \<Rightarrow> nat \<Rightarrow> nat \<Rightarrow> rat \<Rightarrow> blob option"

text \<open>The calls made to the browser, in order.\<close>

datatype codec_call = Decode | ToBlob nat nat rat

definition MAX_UPLOAD_BYTES :: nat where
  "MAX_UPLOAD_BYTES = 12 * 1024 * 1024"

definition MAX_WIDTH :: nat where
  "MAX_WIDTH = 1200"

definition MAX_IMAGE_SIZE :: nat where
  "MAX_IMAGE_SIZE = 8 * 1024 * 1024"

text \<open>
  The new height is computed in doubles, the division first. \<open>to_double x\<close> is the
  double nearest to \<open>x\<close>, a tie going to the even significand: for a positive \<open>x\<close>,
  \<open>binade x\<close> is the exponent \<open>e\<close> with \<open>pow2 e \<le> x < pow2 (e + 1)\<close>, and the doubles
  between these two powers of two are the multiples of \<open>pow2 (e - 52)\<close>. The range of
  the exponent is left out: the widths and heights of bitmaps, and their quotients,
  are far from the largest and the smallest double, and as integers below
  \<open>pow2 53\<close> they are doubles themselves.
\<close>

fun bit_length :: "nat \<Rightarrow> nat" where
  "bit_length n = (if n = 0 then 0 else Suc (bit_length (n div 2)))"

declare bit_length.simps [simp del]

definition binade :: "rat \<Rightarrow> int" where
  "binade x =
     (if 1 \<le> x then int (bit_length (nat \<lfloor>x\<rfloor>)) - 1
      else - int (bit_length (nat (\<lceil>1 / x\<rceil> - 1))))"

definition pow2 :: "int \<Rightarrow> rat" where
  "pow2 k = (if 0 \<le> k then 2 ^ nat k else 1 / 2 ^ nat (- k))"

definition round_half_even :: "rat \<Rightarrow> int" where
  "round_half_even y =
     (if y - of_int \<lfloor>y\<rfloor> < 1 / 2 then \<lfloor>y\<rfloor>
      else if 1 / 2 < y - of_int \<lfloor>y\<rfloor> then \<lfloor>y\<rfloor> + 1
      else if even \<lfloor>y\<rfloor> then \<lfloor>y\<rfloor> else \<lfloor>y\<rfloor> + 1)"

definition to_double :: "rat \<Rightarrow> rat" where
  "to_double x =
     (if x = 0 then 0
      else let ulp = pow2 (binade \<bar>x\<bar> - 52)
           in sgn x * of_int (round_half_even (\<bar>x\<bar> / ulp)) * ulp)"

text \<open>
  \<^verbatim>\<open>Math.round\<close> on a non-negative double: the nearest integer, halves going up. It
  is exact on the double it is given.
\<close>

definition Math_round :: "rat \<Rightarrow> nat" where
  "Math_round x = nat \<lfloor>x + 1 / 2\<rfloor>"

text \<open>
  \<^verbatim>\<open>let w = img.width, h = img.height; if (w > MAX_W) { h = Math.round(h * (MAX_W / w)); w = MAX_W; }\<close>
\<close>

definition canvas_size :: "nat \<Rightarrow> nat \<times> nat \<Rightarrow> nat \<times> nat" where
  "canvas_size maxW wh =
     (case wh of (w, h) \<Rightarrow>
        if maxW < w
        then (maxW, Math_round (to_double (of_nat h * to_double (of_nat maxW / of_nat w))))
        else (w, h))"

text \<open>
  The loop both functions share,
  \<^verbatim>\<open>while (blob && blob.size > maxBytes && quality > 0.35) { quality -= 0.07; blob = await ...toBlob(..., quality) }\<close>,
  started with the first encoding in \<open>blob\<close>. It returns the qualities it encoded at
  and the last value of \<open>blob\<close>.
\<close>

function reencode :: "(rat \<Rightarrow> blob option) \<Rightarrow> nat \<Rightarrow> rat \<Rightarrow> blob option \<Rightarrow> rat list \<times> blob option" where
  "reencode enc maxBytes quality blob =
     (case blob of
        None \<Rightarrow> ([], None)
      | Some b \<Rightarrow>
          if maxBytes < blob_size b \<and> 35 / 100 < quality
          then (case reencode enc maxBytes (quality - 7 / 100) (enc (quality - 7 / 100)) of
                  (qs, r) \<Rightarrow> ((quality - 7 / 100) # qs, r))
          else ([], Some b))"
  by pat_completeness auto
termination
proof (relation "measure (\<lambda>(enc, maxBytes, quality, blob). nat \<lceil>(quality - 35 / 100) * (100 / 7)\<rceil>)")
  show "wf (measure (\<lambda>(enc, maxBytes, quality, blob). nat \<lceil>(quality - 35 / 100) * (100 / 7)\<rceil>))"
    by simp
next
  fix enc :: "rat \<Rightarrow> blob option" and maxBytes :: nat and quality :: rat and blob :: "blob option" and b :: blob
  assume "maxBytes < blob_size b \<and> 35 / 100 < quality"
  then have pos: "0 < (quality - 35 / 100) * (100 / 7)" by simp
  have e: "(quality - 7 / 100 - 35 / 100) * (100 / 7) = (quality - 35 / 100) * (100 / 7) - 1"
    by (simp add: algebra_simps)
  have "\<lceil>(quality - 7 / 100 - 35 / 100) * (100 / 7)\<rceil> = \<lceil>(quality - 35 / 100) * (100 / 7)\<rceil> - 1"
    by (simp only: e ceiling_diff_one)
  moreover from pos have "0 < \<lceil>(quality - 35 / 100) * (100 / 7)\<rceil>" by simp
  ultimately have "nat \<lceil>(quality - 7 / 100 - 35 / 100) * (100 / 7)\<rceil> < nat \<lceil>(quality - 35 / 100) * (100 / 7)\<rceil>"
    by linarith
  then show "((enc, maxBytes, quality - 7 / 100, enc (quality - 7 / 100)), (enc, maxBytes, quality, blob))
      \<in> measure (\<lambda>(enc, maxBytes, quality, blob). nat \<lceil>(quality - 35 / 100) * (100 / 7)\<rceil>)"
    by (simp only: in_measure prod.case)
qed

declare reencode.simps [simp del]

text \<open>
  The quality of the browser after \<open>k\<close> rounds of \<^verbatim>\<open>quality -= 0.07\<close> from the literal
  \<open>q0\<close>, each literal and each difference rounded to a double.
\<close>

primrec double_quality :: "rat \<Rightarrow> nat \<Rightarrow> rat" where
  "double_quality q0 0 = to_double q0"
| "double_quality q0 (Suc k) = to_double (double_quality q0 k - to_double (7 / 100))"

text \<open>
  \<^verbatim>\<open>compressImage(file, maxBytes = MAX_UPLOAD_BYTES, maxW = MAX_WIDTH)\<close>. The whole body is
  inside \<^verbatim>\<open>try\<close>, and the \<^verbatim>\<open>catch\<close> returns the file, so the function returns a blob
  on every path.
\<close>

definition compressImage :: "codec_env \<Rightarrow> blob \<Rightarrow> nat \<Rightarrow> nat \<Rightarrow> codec_call list \<times> blob" where
  "compressImage env file maxBytes maxW =
     (case decode env file of
        None \<Rightarrow> ([Decode], file)
      | Some bitmap \<Rightarrow>
          (case canvas_size maxW bitmap of (w, h) \<Rightarrow>
             (case reencode (toBlob env file w h) maxBytes (92 / 100) (toBlob env file w h (92 / 100)) of
                (qs, r) \<Rightarrow>
                  (Decode # ToBlob w h (92 / 100) # map (ToBlob w h) qs,
                   case r of Some b \<Rightarrow> b | None \<Rightarrow> file))))"

text \<open>
  \<^verbatim>\<open>maybeCompress(file)\<close>. It throws without a file, returns a file of at most
  \<^verbatim>\<open>1.5 * 1024 * 1024\<close> bytes as it is, and has no \<^verbatim>\<open>try\<close> around
  \<^verbatim>\<open>await loadImageBitmap(file)\<close>: a rejection there rejects the call.
\<close>

definition maybeCompress :: "codec_env \<Rightarrow> blob option \<Rightarrow> codec_call list \<times> (js_error + blob)" where
  "maybeCompress env f =
     (case f of
        None \<Rightarrow> ([], Inl NoFileToUpload)
      | Some file \<Rightarrow>
          if (of_nat (blob_size file) :: rat) \<le> 15 / 10 * 1024 * 1024 then ([], Inr file)
          else
            (case decode env file of
               None \<Rightarrow> ([Decode], Inl DecodeError)
             | Some bitmap \<Rightarrow>
                 (case canvas_size 1600 bitmap of (w, h) \<Rightarrow>
                    (case reencode (toBlob env file w h) MAX_IMAGE_SIZE (90 / 100)
                            (toBlob env file w h (90 / 100)) of
                       (qs, r) \<Rightarrow>
                         (Decode # ToBlob w h (90 / 100) # map (ToBlob w h) qs,
                          Inr (case r of Some b \<Rightarrow> b | None \<Rightarrow> file))))))"

section \<open>The transport: \<^verbatim>\<open>uploadWithProgress\<close> and \<^verbatim>\<open>uploadFileWithProgress\<close>\<close>

text \<open>
  Each upload creates a promise that is settled by the first of four events: the
  \<^verbatim>\<open>load\<close> event of the request, its \<^verbatim>\<open>error\<close> event, the abort timer of
  \<^verbatim>\<open>UPLOAD_TIMEOUT_MS\<close>, or an exception of \<^verbatim>\<open>xhr.send\<close>. Which one comes first is
  decided outside the program and is an input here; at \<^verbatim>\<open>load\<close> the request shows
  its status and, because both functions set \<^verbatim>\<open>xhr.responseType = 'json'\<close>, the parsed
  body in \<^verbatim>\<open>xhr.response\<close> (\<^verbatim>\<open>null\<close> when the body is empty or does not parse).
  With that response type reading \<^verbatim>\<open>xhr.responseText\<close> throws (an
  \<^verbatim>\<open>InvalidStateError\<close>, by the XMLHttpRequest standard).
\<close>

record xhr =
  status :: nat
  response :: jsval

datatype xhr_event = Load xhr | ErrorEvent | TimerFired | SendThrows

datatype promise = Resolved jsval | Rejected js_error | Pending

text \<open>
  \<^verbatim>\<open>uploadWithProgress\<close> of \<^verbatim>\<open>script.js\<close>. On a 2xx status it resolves with
  \<^verbatim>\<open>xhr.response || xhr.responseText || {}\<close>: a falsy response makes the handler read
  \<^verbatim>\<open>responseText\<close>, the read throws inside the handler, and the promise, whose timer
  has been cleared, stays pending. Any other status rejects.
\<close>

definition uploadWithProgress :: "xhr_event \<Rightarrow> promise" where
  "uploadWithProgress ev =
     (case ev of
        Load x \<Rightarrow>
          if 200 \<le> status x \<and> status x < 300
          then (if truthy (response x) then Resolved (response x) else Pending)
          else Rejected (UploadFailed (status x))
      | ErrorEvent \<Rightarrow> Rejected NetworkError
      | TimerFired \<Rightarrow> Rejected UploadTimeout
      | SendThrows \<Rightarrow> Rejected SendError)"

text \<open>
  \<^verbatim>\<open>uploadFileWithProgress\<close> of \<^verbatim>\<open>analyze.js\<close>. On a 2xx status it resolves with
  \<^verbatim>\<open>xhr.response\<close>. On any other status it tries
  \<^verbatim>\<open>xhr.response || JSON.parse(xhr.responseText || '{}')\<close> and resolves with that; with
  a falsy response the read of \<^verbatim>\<open>responseText\<close> throws, and the \<^verbatim>\<open>catch\<close> rejects.
\<close>

definition uploadFileWithProgress :: "xhr_event \<Rightarrow> promise" where
  "uploadFileWithProgress ev =
     (case ev of
        Load x \<Rightarrow>
          if 200 \<le> status x \<and> status x < 300 then Resolved (response x)
          else (if truthy (response x) then Resolved (response x)
                else Rejected (UploadFailed (status x)))
      | ErrorEvent \<Rightarrow> Rejected NetworkError
      | TimerFired \<Rightarrow> Rejected UploadTimeout
      | SendThrows \<Rightarrow> Rejected SendError)"

section \<open>The analyze operation of \<^verbatim>\<open>script.js\<close>\<close>

text \<open>
  What the operation does to the page, in order. \<open>Normalize raw\<close> records a call of
  \<^verbatim>\<open>normalizeResponse\<close>, \<open>RenderResults data detected\<close> a call of
  \<^verbatim>\<open>renderResults\<close> on \<open>data\<close> whose \<^verbatim>\<open>detected_objects\<close> property holds
  \<open>detected\<close>; what \<^verbatim>\<open>renderResults\<close> draws is not modelled, and it is taken not to
  throw.
\<close>

datatype validation = NoFileSelected | UnsupportedFileType | ImageTooLarge

datatype ui_effect =
    InlineMessage validation
  | ShowAnalyzing
  | Normalize jsval
  | RenderResults jsval jsval
  | RefreshProfile
  | ShowAnalysisFailed js_error
  | RestoreButton

datatype completion = Returned | Threw js_error | NeverSettles

definition ALLOWED_TYPES :: "string list" where
  "ALLOWED_TYPES = [''image/jpeg'', ''image/png'', ''image/webp'', ''image/gif'']"

definition validateImageFile :: "blob option \<Rightarrow> validation option" where
  "validateImageFile f =
     (case f of
        None \<Rightarrow> Some NoFileSelected
      | Some file \<Rightarrow>
          if blob_type file \<notin> set ALLOWED_TYPES then Some UnsupportedFileType
          else if MAX_IMAGE_SIZE < blob_size file then Some ImageTooLarge
          else None)"

text \<open>
  \<^verbatim>\<open>analyzeImage\<close> of \<^verbatim>\<open>script.js\<close>: validation, then inside \<^verbatim>\<open>try\<close> the
  compression, the upload, \<^verbatim>\<open>normalizeResponse\<close> and \<^verbatim>\<open>renderResults\<close>; the
  \<^verbatim>\<open>catch\<close> writes \<^verbatim>\<open>Analysis failed\<close> with the message of the error into the
  results area, and \<^verbatim>\<open>finally\<close> restores the button. The function does not rethrow.
\<close>

definition analyzeImage ::
  "runtime \<Rightarrow> codec_env \<Rightarrow> bool \<Rightarrow> blob option \<Rightarrow> xhr_event \<Rightarrow> ui_effect list \<times> completion" where
  "analyzeImage rt env resultsSection file ev =
     (case validateImageFile file of
        Some msg \<Rightarrow> ([InlineMessage msg], Returned)
      | None \<Rightarrow>
          if \<not> resultsSection then ([], Threw ResultsSectionMissing)
          else
            (case snd (maybeCompress env file) of
               Inl err \<Rightarrow> ([ShowAnalyzing, ShowAnalysisFailed err, RestoreButton], Returned)
             | Inr compressed \<Rightarrow>
                 (case uploadWithProgress ev of
                    Pending \<Rightarrow> ([ShowAnalyzing], NeverSettles)
                  | Rejected err \<Rightarrow> ([ShowAnalyzing, ShowAnalysisFailed err, RestoreButton], Returned)
                  | Resolved result \<Rightarrow>
                      (case normalizeResponse rt result of
                         Inl err \<Rightarrow>
                           ([ShowAnalyzing, Normalize result, ShowAnalysisFailed err, RestoreButton], Returned)
                       | Inr data \<Rightarrow>
                           ([ShowAnalyzing, Normalize result,
                             RenderResults data (get_prop data (js ''detected_objects'')),
                             RefreshProfile, RestoreButton], Returned)))))"

text \<open>Environments and files to run the codec on.\<close>

definition jpeg :: "nat \<Rightarrow> nat \<Rightarrow> blob" where
  "jpeg n i = \<lparr>blob_size = n, blob_type = ''image/jpeg'', blob_id = i\<rparr>"

text \<open>
  Every file decodes to 2000 by 1000 pixels and every encoding has 20 000 000 bytes,
  above both budgets; the \<open>blob_id\<close> of an encoding is its quality in hundredths.
\<close>

definition oversize_env :: codec_env where
  "oversize_env =
     \<lparr>decode = (\<lambda>f. Some (2000, 1000)),
      toBlob = (\<lambda>f w h q. Some (jpeg 20000000 (nat \<lfloor>q * 100\<rfloor>)))\<rparr>"

text \<open>Nothing decodes.\<close>

definition undecodable_env :: codec_env where
  "undecodable_env = \<lparr>decode = (\<lambda>f. None), toBlob = (\<lambda>f w h q. None)\<rparr>"

text \<open>The body of the 400 response of the development server.\<close>

definition error_body :: jsval where
  "error_body = JObj [(js ''error'', JStr (js ''No image uploaded''))]"

text \<open>
  Every file decodes to 1696 by 159 pixels, and every encoding has 100 000 bytes,
  within both budgets.
\<close>

definition tie_env :: codec_env where
  "tie_env = \<lparr>decode = (\<lambda>f. Some (1696, 159)), toBlob = (\<lambda>f w h q. Some (jpeg 100000 0))\<rparr>"

text \<open>The qualities that were encoded at, read off the calls.\<close>

definition qualities :: "codec_call list \<Rightarrow> rat list" where
  "qualities calls = concat (map (\<lambda>c. case c of Decode \<Rightarrow> [] | ToBlob w h q \<Rightarrow> [q]) calls)"

text \<open>The sizes of the canvases that were encoded, read off the calls.\<close>

definition canvas_sizes :: "codec_call list \<Rightarrow> (nat \<times> nat) list" where
  "canvas_sizes calls = concat (map (\<lambda>c. case c of Decode \<Rightarrow> [] | ToBlob w h q \<Rightarrow> [(w, h)]) calls)"

text \<open>Observers used to state properties of a returned result.\<close>

definition result_field :: "js_error + jsval \<Rightarrow> jsstring \<Rightarrow> jsval" where
  "result_field r k = (case r of Inl e \<Rightarrow> JUndefined | Inr v \<Rightarrow> get_prop v k)"

definition label_of :: "jsval \<Rightarrow> jsstring" where
  "label_of d = (case get_prop d (js ''name'') of JStr s \<Rightarrow> s | _ \<Rightarrow> [])"

text \<open>\<^verbatim>\<open>normalizeResponse(normalizeResponse(raw))\<close>, an exception of the inner call propagating.\<close>

definition renormalize :: "runtime \<Rightarrow> jsval \<Rightarrow> js_error + jsval" where
  "renormalize rt raw =
     (case normalizeResponse rt raw of Inl e \<Rightarrow> Inl e | Inr v \<Rightarrow> normalizeResponse rt v)"

text \<open>The object literal of the \<^verbatim>\<open>return\<close> statement, as a function of what it reads.\<close>

definition normalized :: "jsval \<Rightarrow> jsval list \<Rightarrow> jsval list \<Rightarrow> jsval" where
  "normalized raw ds recs =
     JObj [(js ''success'',
              if get_prop raw (js ''success'') \<noteq> JUndefined then get_prop raw (js ''success'') else JBool True),
           (js ''detected_objects'', JArr ds),
           (js ''recommendations'', JArr recs),
           (js ''eco_points'',
              if get_prop raw (js ''eco_points'') \<noteq> JUndefined then get_prop raw (js ''eco_points'')
              else js_or (js_or (get_prop raw (js ''points'')) (get_prop raw (js ''points_earned''))) (JNum (Fin 0))),
           (js ''carbon_saved_kg'',
              if get_prop raw (js ''carbon_saved_kg'') \<noteq> JUndefined then get_prop raw (js ''carbon_saved_kg'')
              else js_or (get_prop raw (js ''carbon'')) (JNum (Fin 0))),
           (js ''filename'', js_or (js_or (get_prop raw (js ''filename'')) (get_prop raw (js ''file''))) (JStr [])),
           (js ''debug'',
              js_or (get_prop raw (js ''debug''))
                (JObj [(js ''model_loaded'', js_or (get_prop raw (js ''model_loaded'')) (JBool False)),
                       (js ''detections_count'', JNum (Fin (of_nat (length ds))))]))]"

text \<open>What \<^verbatim>\<open>detected.map\<close> returns for each element: three fields, the name a trimmed string.\<close>

definition norm_shape :: "jsval \<Rightarrow> bool" where
  "norm_shape d =
     (\<exists>s n b. d = JObj [(js ''name'', JStr (trim s)), (js ''conf'', JNum n), (js ''bbox'', b)]
        \<and> (b = JNull \<or> truthy b))"

text \<open>Example responses.\<close>

definition bottle_response :: jsval where
  "bottle_response =
     JObj [(js ''detected_objects'',
              JArr [JObj [(js ''name'', JStr (js ''bottle'')), (js ''confidence'', JNum (Fin (92 / 100)))]]),
           (js ''carbon_saved_kg'', JNum (Fin (1 / 2))),
           (js ''total_points'', JNum (Fin 10))]"

definition bottle_result :: jsval where
  "bottle_result =
     JObj [(js ''success'', JBool True),
           (js ''detected_objects'',
              JArr [JObj [(js ''name'', JStr (js ''bottle'')), (js ''conf'', JNum (Fin (92 / 100))),
                          (js ''bbox'', JNull)]]),
           (js ''recommendations'', JArr [JStr (js ''bottle'' @ generic_suffix)]),
           (js ''eco_points'', JNum (Fin 0)),
           (js ''carbon_saved_kg'', JNum (Fin (1 / 2))),
           (js ''filename'', JStr []),
           (js ''debug'',
              JObj [(js ''model_loaded'', JBool False), (js ''detections_count'', JNum (Fin 1))])]"

definition upstream_debug_response :: jsval where
  "upstream_debug_response =
     JObj [(js ''detected_objects'', JArr []),
           (js ''debug'', JObj [(js ''detections_count'', JNum (Fin 7))])]"

definition blank_name_response :: jsval where
  "blank_name_response = JObj [(js ''detected_objects'', JArr [JObj [(js ''name'', JStr (js ''  ''))]])]"

section \<open>Properties of the normalizer\<close>

lemmas normalize_defs =
  normalizeResponse_def unwrap_def find_detected_def find_recs_def normalize_detection_def
  detection_name_def detection_conf_def detection_bbox_def generic_rec_def generic_suffix_def
  null_default_def js_or_def js_def trim_def is_ws_def plain_runtime_def Let_def

lemma bottle_normalized: "normalizeResponse plain_runtime bottle_response = Inr bottle_result"
  by (simp add: normalize_defs bottle_response_def bottle_result_def)

lemma sequence_map_Inr:
  "sequence (map f xs) = Inr ys \<Longrightarrow> list_all2 (\<lambda>x y. f x = Inr y) xs ys"
  by (induction xs arbitrary: ys) (auto split: sum.splits)

lemma sequence_map_same:
  "(\<And>x. x \<in> set xs \<Longrightarrow> f x = Inr x) \<Longrightarrow> sequence (map f xs) = Inr xs"
  by (induction xs) auto

lemma sequence_map_fun:
  "(\<And>x. x \<in> set xs \<Longrightarrow> f x = Inr (g x)) \<Longrightarrow> sequence (map f xs) = Inr (map g xs)"
  by (induction xs) auto

lemma trim_idem: "trim (trim s) = trim s"
proof -
  define a where "a = dropWhile is_ws s"
  define b where "b = dropWhile is_ws (rev a)"
  have 1: "dropWhile is_ws a = a" by (simp add: a_def)
  obtain p where p: "rev a = p @ b"
    unfolding b_def by (metis takeWhile_dropWhile_id)
  then have a: "a = rev b @ rev p" by (metis rev_append rev_rev_ident)
  have "dropWhile is_ws (rev b) = rev b"
  proof (cases "rev b")
    case Nil
    then show ?thesis by simp
  next
    case (Cons x xs)
    with a have "a = x # (xs @ rev p)" by simp
    with 1 have "\<not> is_ws x" by (metis dropWhile_eq_Cons_conv)
    with Cons show ?thesis by simp
  qed
  moreover have "dropWhile is_ws b = b" by (simp add: b_def)
  ultimately show ?thesis by (simp add: trim_def a_def[symmetric] b_def[symmetric])
qed

lemma nd_shape: "normalize_detection rt d = Inr d' \<Longrightarrow> norm_shape d'"
  unfolding normalize_detection_def norm_shape_def detection_bbox_def js_or_def
  by (auto split: if_splits sum.splits)

lemma norm_shape_generic:
  "norm_shape d \<Longrightarrow> generic_rec rt d = Inr (JStr (label_of d @ generic_suffix))"
  by (auto simp: norm_shape_def generic_rec_def label_of_def js_def)

lemma list_all2_shape:
  "list_all2 (\<lambda>x y. normalize_detection rt x = Inr y) xs ys \<Longrightarrow> \<forall>d \<in> set ys. norm_shape d"
  by (induction rule: list_all2_induct) (auto dest: nd_shape)

text \<open>
  On a truthy input the result, when there is one, is the returned literal over the
  normalized detections and over the recommendations found or generated.
\<close>

lemma nr_shape:
  assumes "normalizeResponse rt raw0 = Inr v" "truthy raw0"
  shows "\<exists>ds. sequence (map (normalize_detection rt) (find_detected (unwrap raw0))) = Inr ds
     \<and> (\<forall>d \<in> set ds. norm_shape d)
     \<and> v = normalized (unwrap raw0) ds
            (if find_recs (unwrap raw0) = [] \<and> ds \<noteq> [] then map (\<lambda>d. JStr (label_of d @ generic_suffix)) ds
             else find_recs (unwrap raw0))"
proof -
  obtain ds where ds: "sequence (map (normalize_detection rt) (find_detected (unwrap raw0))) = Inr ds"
    using assms by (auto simp: normalizeResponse_def Let_def split: sum.splits)
  have sh: "\<forall>d \<in> set ds. norm_shape d"
    using sequence_map_Inr[OF ds] by (rule list_all2_shape)
  then have gen: "sequence (map (generic_rec rt) ds) = Inr (map (\<lambda>d. JStr (label_of d @ generic_suffix)) ds)"
    by (intro sequence_map_fun) (simp add: norm_shape_generic)
  have "normalizeResponse rt raw0 = Inr (normalized (unwrap raw0) ds
            (if find_recs (unwrap raw0) = [] \<and> ds \<noteq> [] then map (\<lambda>d. JStr (label_of d @ generic_suffix)) ds
             else find_recs (unwrap raw0)))"
    unfolding normalizeResponse_def Let_def normalized_def ds
    using assms(2) by (simp add: gen)
  with assms(1) ds sh show ?thesis by simp
qed

lemma nd_fixpoint:
  assumes "norm_shape d" "label_of d \<noteq> []" "get_prop d (js ''conf'') \<noteq> JNum NaN"
  shows "normalize_detection rt d = Inr d"
proof -
  obtain s n b where d: "d = JObj [(js ''name'', JStr (trim s)), (js ''conf'', JNum n), (js ''bbox'', b)]"
    and b: "b = JNull \<or> truthy b"
    using assms(1) by (auto simp: norm_shape_def)
  from assms(2) d have s: "trim s \<noteq> []" by (simp add: label_of_def js_def)
  from assms(3) d have n: "n \<noteq> NaN" by (simp add: js_def)
  have name: "detection_name rt d = Inr (JStr (trim s))"
    using s by (simp add: d detection_name_def js_or_def js_def)
  have conf: "detection_conf d = JNum n"
    by (simp add: d detection_conf_def js_def)
  have bbox: "detection_bbox d = b"
    using b by (auto simp add: d detection_bbox_def js_or_def js_def)
  have num: "ToNumber rt (js_or (JNum n) (JNum (Fin 0))) = Inr n"
    using n by (simp add: js_or_def)
  show ?thesis
    unfolding normalize_detection_def name conf bbox
    using s num by (simp add: d js_or_def trim_idem)
qed

lemma second_pass:
  assumes "\<forall>d\<in>set ds. normalize_detection rt d = Inr d" "recs = [] \<longrightarrow> ds = []"
    "s \<noteq> JUndefined" "e \<noteq> JUndefined" "c \<noteq> JUndefined" "js_or f (JStr []) = f" "truthy g"
  shows "normalizeResponse rt
           (JObj [(js ''success'', s), (js ''detected_objects'', JArr ds), (js ''recommendations'', JArr recs),
                  (js ''eco_points'', e), (js ''carbon_saved_kg'', c), (js ''filename'', f), (js ''debug'', g)])
         = Inr (JObj [(js ''success'', s), (js ''detected_objects'', JArr ds), (js ''recommendations'', JArr recs),
                  (js ''eco_points'', e), (js ''carbon_saved_kg'', c), (js ''filename'', f), (js ''debug'', g)])"
    (is "normalizeResponse rt ?v = _")
proof -
  have u: "unwrap ?v = ?v" by (simp add: unwrap_def js_def)
  have fd: "find_detected ?v = ds" by (simp add: find_detected_def js_def)
  have fr: "find_recs ?v = recs" by (simp add: find_recs_def js_def)
  have sq: "sequence (map (normalize_detection rt) ds) = Inr ds"
    using assms(1) by (intro sequence_map_same) simp
  have g1: "get_prop ?v (js ''success'') = s" by (simp add: js_def)
  have g2: "get_prop ?v (js ''eco_points'') = e" by (simp add: js_def)
  have g3: "get_prop ?v (js ''carbon_saved_kg'') = c" by (simp add: js_def)
  have g4: "get_prop ?v (js ''filename'') = f" by (simp add: js_def)
  have g5: "get_prop ?v (js ''file'') = JUndefined" by (simp add: js_def)
  have g6: "get_prop ?v (js ''debug'') = g" by (simp add: js_def)
  have f: "js_or (js_or f JUndefined) (JStr []) = f"
    using assms(6) by (simp add: js_or_def split: if_splits)
  have "truthy ?v" by simp
  then show ?thesis
    unfolding normalizeResponse_def Let_def u fd fr sq g1 g2 g3 g4 g5 g6 f
    using assms(2,3,4,5,7) by (simp add: js_or_def del: get_prop.simps)
qed

subsection \<open>The detection count of the diagnostics\<close>

text \<open>
  Claim C1, as the code has it. The \<^verbatim>\<open>debug\<close> field of a result is the upstream
  \<^verbatim>\<open>raw.debug\<close> whenever that is truthy, passed through as it is; only without one
  is it built here, and then its \<^verbatim>\<open>detections_count\<close> is the length of the normalized
  detection list of the same result. The default returned for a falsy input has no
  \<^verbatim>\<open>debug\<close> field at all.
\<close>

theorem normalizeResponse_debug:
  assumes "normalizeResponse rt raw = Inr v"
  shows "get_prop v (js ''debug'') =
     (if \<not> truthy raw then JUndefined
      else if truthy (get_prop (unwrap raw) (js ''debug'')) then get_prop (unwrap raw) (js ''debug'')
      else JObj [(js ''model_loaded'', js_or (get_prop (unwrap raw) (js ''model_loaded'')) (JBool False)),
                 (js ''detections_count'',
                    JNum (Fin (of_nat (length (elems (get_prop v (js ''detected_objects'')))))))])"
proof (cases "truthy raw")
  case False
  with assms have "v = null_default" by (simp add: normalizeResponse_def)
  with False show ?thesis by (simp add: null_default_def js_def)
next
  case True
  from nr_shape[OF assms True] obtain ds recs where "v = normalized (unwrap raw) ds recs" by blast
  with True show ?thesis by (simp add: normalized_def js_def js_or_def)
qed

theorem normalizeResponse_debug_witness:
  "normalizeResponse plain_runtime bottle_response = Inr bottle_result
   \<and> get_prop bottle_result (js ''debug'') =
       JObj [(js ''model_loaded'', JBool False), (js ''detections_count'', JNum (Fin 1))]
   \<and> length (elems (get_prop bottle_result (js ''detected_objects''))) = 1"
  using normalizeResponse_debug[OF bottle_normalized]
  by (simp add: bottle_normalized bottle_result_def js_def)

text \<open>
  The claim as the specification words it (the count is never taken from upstream)
  fails on a response that carries its own \<^verbatim>\<open>debug\<close> object: the count 7 of the
  response comes back beside an empty detection list.
\<close>

theorem upstream_debug_counterexample:
  "get_prop (result_field (normalizeResponse plain_runtime upstream_debug_response) (js ''debug''))
      (js ''detections_count'') = JNum (Fin 7)
   \<and> result_field (normalizeResponse plain_runtime upstream_debug_response) (js ''detected_objects'') = JArr []
   \<and> JNum (Fin 7) \<noteq> JNum (Fin (of_nat (length (elems (JArr [])))))"
  by (simp add: normalize_defs upstream_debug_response_def result_field_def)

subsection \<open>The default for a missing response\<close>

text \<open>
  Claim C2, as the code has it. For \<^verbatim>\<open>null\<close> and for \<^verbatim>\<open>undefined\<close> the result is
  the literal of the first line of the function: five fields, \<^verbatim>\<open>success\<close> false, both
  lists empty, both numbers zero. It has no \<^verbatim>\<open>filename\<close> and no \<^verbatim>\<open>debug\<close> field.
\<close>

theorem normalizeResponse_null:
  "normalizeResponse rt JNull = Inr null_default
   \<and> normalizeResponse rt JUndefined = Inr null_default
   \<and> null_default =
       JObj [(js ''success'', JBool False), (js ''detected_objects'', JArr []),
             (js ''recommendations'', JArr []), (js ''eco_points'', JNum (Fin 0)),
             (js ''carbon_saved_kg'', JNum (Fin 0))]
   \<and> get_prop null_default (js ''filename'') = JUndefined
   \<and> get_prop null_default (js ''debug'') = JUndefined"
  by (simp add: normalizeResponse_def null_default_def js_def)

theorem normalizeResponse_null_witness:
  "normalizeResponse plain_runtime JNull = Inr null_default
   \<and> result_field (normalizeResponse plain_runtime JNull) (js ''success'') = JBool False
   \<and> result_field (normalizeResponse plain_runtime JNull) (js ''filename'') = JUndefined"
  using normalizeResponse_null[of plain_runtime]
  by (simp add: result_field_def null_default_def js_def)

text \<open>
  The seven-field default of the specification, with an empty \<^verbatim>\<open>filename\<close> and a
  \<^verbatim>\<open>debug\<close> object, is not what \<^verbatim>\<open>null\<close> is mapped to.
\<close>

theorem null_default_counterexample:
  "normalizeResponse plain_runtime JNull \<noteq>
     Inr (JObj [(js ''success'', JBool False), (js ''detected_objects'', JArr []),
                (js ''recommendations'', JArr []), (js ''eco_points'', JNum (Fin 0)),
                (js ''carbon_saved_kg'', JNum (Fin 0)), (js ''filename'', JStr []),
                (js ''debug'', JObj [(js ''model_loaded'', JBool False),
                                     (js ''detections_count'', JNum (Fin 0))])])"
  by (simp add: normalizeResponse_def null_default_def)

subsection \<open>Generic recommendations\<close>

text \<open>
  Claim C5, as the code has it. When the response (after unwrapping) yields no
  recommendations, the result has one recommendation per normalized detection, in
  order: the detection's name followed by
  \<^verbatim>\<open>" \<close>U+2014\<^verbatim>\<open> Unknown: please consult local recycling rules"\<close>; with no detections
  either, the list stays empty. When the response yields recommendations they are
  returned as found. Every normalized detection carries its name as a string.
\<close>

theorem normalizeResponse_recommendations:
  assumes "normalizeResponse rt raw = Inr v" "truthy raw"
  shows "get_prop v (js ''recommendations'') =
           JArr (if find_recs (unwrap raw) = []
                 then map (\<lambda>d. JStr (label_of d @ generic_suffix)) (elems (get_prop v (js ''detected_objects'')))
                 else find_recs (unwrap raw))
         \<and> list_all (\<lambda>d. get_prop d (js ''name'') = JStr (label_of d))
              (elems (get_prop v (js ''detected_objects'')))"
proof -
  from nr_shape[OF assms] obtain ds where sh: "\<forall>d \<in> set ds. norm_shape d"
    and v: "v = normalized (unwrap raw) ds
            (if find_recs (unwrap raw) = [] \<and> ds \<noteq> [] then map (\<lambda>d. JStr (label_of d @ generic_suffix)) ds
             else find_recs (unwrap raw))" by blast
  have 1: "elems (get_prop v (js ''detected_objects'')) = ds"
    by (simp add: v normalized_def js_def)
  have 2: "get_prop v (js ''recommendations'') =
      JArr (if find_recs (unwrap raw) = [] \<and> ds \<noteq> [] then map (\<lambda>d. JStr (label_of d @ generic_suffix)) ds
            else find_recs (unwrap raw))"
    by (simp add: v normalized_def js_def)
  have 3: "list_all (\<lambda>d. get_prop d (js ''name'') = JStr (label_of d)) ds"
    using sh by (auto simp: list_all_iff norm_shape_def label_of_def js_def)
  show ?thesis unfolding 1 2 using 3 by auto
qed

theorem normalizeResponse_recommendations_witness:
  "normalizeResponse plain_runtime bottle_response = Inr bottle_result
   \<and> truthy bottle_response
   \<and> find_recs (unwrap bottle_response) = []
   \<and> get_prop bottle_result (js ''recommendations'') =
       JArr [JStr (js ''bottle'' @ js '' '' @ [8212] @ js '' Unknown: please consult local recycling rules'')]"
proof -
  have t: "truthy bottle_response" by (simp add: bottle_response_def)
  have f: "find_recs (unwrap bottle_response) = []"
    by (simp add: bottle_response_def unwrap_def find_recs_def js_or_def js_def)
  have r: "get_prop bottle_result (js ''recommendations'') =
       JArr [JStr (js ''bottle'' @ js '' '' @ [8212] @ js '' Unknown: please consult local recycling rules'')]"
    using normalizeResponse_recommendations[OF bottle_normalized t]
    by (simp add: f bottle_result_def label_of_def generic_suffix_def js_def)
  from bottle_normalized t f r show ?thesis by blast
qed

text \<open>
  The wording of the specification for the generated text,
  \<^verbatim>\<open>"<label> \<close>U+2014\<^verbatim>\<open> consult local disposal guidance."\<close>, is not the text the code
  produces.
\<close>

theorem generic_recommendation_counterexample:
  "result_field (normalizeResponse plain_runtime bottle_response) (js ''recommendations'') =
     JArr [JStr (js ''bottle'' @ js '' '' @ [8212] @ js '' Unknown: please consult local recycling rules'')]
   \<and> result_field (normalizeResponse plain_runtime bottle_response) (js ''recommendations'') \<noteq>
     JArr [JStr (js ''bottle'' @ js '' '' @ [8212] @ js '' consult local disposal guidance.'')]"
  by (simp add: normalize_defs bottle_response_def result_field_def)

subsection \<open>Normalizing twice\<close>

text \<open>
  Claim C9, as the code has it. A result of \<^verbatim>\<open>normalizeResponse\<close> on a truthy input is
  mapped to itself by \<^verbatim>\<open>normalizeResponse\<close> whenever each of its detections has a
  non-empty name and a confidence other than NaN.
\<close>

theorem normalizeResponse_idempotent:
  assumes "normalizeResponse rt raw = Inr v" "truthy raw"
    "list_all (\<lambda>d. label_of d \<noteq> [] \<and> get_prop d (js ''conf'') \<noteq> JNum NaN)
       (elems (get_prop v (js ''detected_objects'')))"
  shows "normalizeResponse rt v = Inr v"
proof -
  from nr_shape[OF assms(1,2)] obtain ds recs where sh: "\<forall>d \<in> set ds. norm_shape d"
    and recs: "recs = (if find_recs (unwrap raw) = [] \<and> ds \<noteq> []
                       then map (\<lambda>d. JStr (label_of d @ generic_suffix)) ds
                       else find_recs (unwrap raw))"
    and v: "v = normalized (unwrap raw) ds recs" by blast
  have 1: "elems (get_prop v (js ''detected_objects'')) = ds"
    by (simp add: v normalized_def js_def)
  have fixd: "\<forall>d\<in>set ds. normalize_detection rt d = Inr d"
    using assms(3) sh unfolding 1 by (auto simp: list_all_iff intro: nd_fixpoint)
  have r: "recs = [] \<longrightarrow> ds = []" using recs by (auto split: if_splits)
  show ?thesis
    unfolding v normalized_def
    by (rule second_pass[OF fixd r]) (auto simp: js_or_def)
qed

theorem normalizeResponse_idempotent_witness:
  "normalizeResponse plain_runtime bottle_response = Inr bottle_result
   \<and> truthy bottle_response
   \<and> list_all (\<lambda>d. label_of d \<noteq> [] \<and> get_prop d (js ''conf'') \<noteq> JNum NaN)
       (elems (get_prop bottle_result (js ''detected_objects'')))
   \<and> normalizeResponse plain_runtime bottle_result = Inr bottle_result"
proof -
  have t: "truthy bottle_response" by (simp add: bottle_response_def)
  have l: "list_all (\<lambda>d. label_of d \<noteq> [] \<and> get_prop d (js ''conf'') \<noteq> JNum NaN)
       (elems (get_prop bottle_result (js ''detected_objects'')))"
    by (simp add: bottle_result_def label_of_def js_def)
  from normalizeResponse_idempotent[OF bottle_normalized t l] bottle_normalized t l
  show ?thesis by simp
qed

text \<open>
  Without that condition the second pass changes the result: a name of two spaces is
  trimmed to the empty string by the first pass, and the empty string, being falsy,
  is replaced by \<^verbatim>\<open>'item'\<close> in the second.
\<close>

theorem renormalize_counterexample:
  "renormalize plain_runtime blank_name_response \<noteq> normalizeResponse plain_runtime blank_name_response
   \<and> map label_of (elems (result_field (normalizeResponse plain_runtime blank_name_response)
                             (js ''detected_objects''))) = [[]]
   \<and> map label_of (elems (result_field (renormalize plain_runtime blank_name_response)
                             (js ''detected_objects''))) = [js ''item'']"
  by (simp add: normalize_defs renormalize_def blank_name_response_def result_field_def label_of_def)

section \<open>Properties of the codec\<close>

lemma floor_rat_numeral: "\<lfloor>numeral a / numeral b :: rat\<rfloor> = numeral a div numeral b"
  by (metis floor_divide_of_int_eq of_int_numeral)

lemma ceiling_rat_numeral: "\<lceil>numeral a / numeral b :: rat\<rceil> = - (- numeral a div numeral b)"
  by (metis ceiling_def floor_divide_of_int_eq minus_divide_left of_int_minus of_int_numeral)

lemmas codec_defs = compressImage_def maybeCompress_def canvas_size_def Math_round_def
  MAX_UPLOAD_BYTES_def MAX_WIDTH_def MAX_IMAGE_SIZE_def oversize_env_def undecodable_env_def jpeg_def

lemma reencode_step:
  "maxBytes < blob_size b \<Longrightarrow> 35 / 100 < quality \<Longrightarrow>
   reencode enc maxBytes quality (Some b) =
     (case reencode enc maxBytes (quality - 7 / 100) (enc (quality - 7 / 100)) of
        (qs, r) \<Rightarrow> ((quality - 7 / 100) # qs, r))"
  by (subst reencode.simps) auto

lemma reencode_stop:
  "\<not> (maxBytes < blob_size b \<and> 35 / 100 < quality) \<Longrightarrow>
   reencode enc maxBytes quality (Some b) = ([], Some b)"
  by (subst reencode.simps) auto

lemma reencode_None: "reencode enc maxBytes quality None = ([], None)"
  by (subst reencode.simps) simp

lemma reencode_low: "quality \<le> 35 / 100 \<Longrightarrow> reencode enc maxBytes quality blob = ([], blob)"
  by (subst reencode.simps) (auto split: option.splits)

text \<open>The number of rounds is bounded by the distance of the quality from 0.35 in steps of 0.07.\<close>

lemma reencode_length:
  "length (fst (reencode enc maxBytes quality blob)) \<le> nat \<lceil>(quality - 35 / 100) * (100 / 7)\<rceil>"
proof (induction enc maxBytes quality blob rule: reencode.induct)
  case (1 enc maxBytes quality blob)
  show ?case
  proof (cases blob)
    case None
    then show ?thesis by (simp add: reencode_None)
  next
    case (Some b)
    show ?thesis
    proof (cases "maxBytes < blob_size b \<and> 35 / 100 < quality")
      case False
      then show ?thesis using Some by (simp add: reencode_stop)
    next
      case True
      then have pos: "0 < (quality - 35 / 100) * (100 / 7)" by simp
      have e: "(quality - 7 / 100 - 35 / 100) * (100 / 7) = (quality - 35 / 100) * (100 / 7) - 1"
        by (simp add: algebra_simps)
      have c: "\<lceil>(quality - 7 / 100 - 35 / 100) * (100 / 7)\<rceil> = \<lceil>(quality - 35 / 100) * (100 / 7)\<rceil> - 1"
        by (simp only: e ceiling_diff_one)
      from pos have p: "0 < \<lceil>(quality - 35 / 100) * (100 / 7)\<rceil>" by simp
      from "1.IH"[OF Some True]
      have "length (fst (reencode enc maxBytes (quality - 7 / 100) (enc (quality - 7 / 100))))
            \<le> nat \<lceil>(quality - 7 / 100 - 35 / 100) * (100 / 7)\<rceil>" .
      then have "Suc (length (fst (reencode enc maxBytes (quality - 7 / 100) (enc (quality - 7 / 100)))))
            \<le> nat \<lceil>(quality - 35 / 100) * (100 / 7)\<rceil>"
        using c p by linarith
      then show ?thesis
        using Some True by (simp add: reencode_step case_prod_beta)
    qed
  qed
qed

text \<open>The qualities are the starting quality less 0.07, less 0.14, and so on.\<close>

lemma reencode_qualities:
  "fst (reencode enc maxBytes quality blob) =
     map (\<lambda>k. quality - of_nat (Suc k) * (7 / 100)) [0..<length (fst (reencode enc maxBytes quality blob))]"
proof (induction enc maxBytes quality blob rule: reencode.induct)
  case (1 enc maxBytes quality blob)
  show ?case
  proof (cases blob)
    case None
    then show ?thesis by (simp add: reencode_None)
  next
    case (Some b)
    show ?thesis
    proof (cases "maxBytes < blob_size b \<and> 35 / 100 < quality")
      case False
      then show ?thesis using Some by (simp add: reencode_stop)
    next
      case True
      let ?r = "reencode enc maxBytes (quality - 7 / 100) (enc (quality - 7 / 100))"
      have r: "reencode enc maxBytes quality blob = ((quality - 7 / 100) # fst ?r, snd ?r)"
        using Some True by (simp add: reencode_step case_prod_beta)
      have "fst ?r = map (\<lambda>k. quality - 7 / 100 - of_nat (Suc k) * (7 / 100)) [0..<length (fst ?r)]"
        using "1.IH"[OF Some True] .
      also have "\<dots> = map (\<lambda>k. quality - of_nat (Suc k) * (7 / 100)) [Suc 0..<Suc (length (fst ?r))]"
        by (simp add: map_Suc_upt[symmetric] algebra_simps del: upt_Suc)
      finally have "(quality - 7 / 100) # fst ?r =
          map (\<lambda>k. quality - of_nat (Suc k) * (7 / 100)) (0 # [Suc 0..<Suc (length (fst ?r))])"
        by simp
      then show ?thesis unfolding r by (simp add: upt_conv_Cons del: upt_Suc)
    qed
  qed
qed

text \<open>A round happens only from a quality above 0.35, so every quality used is above 0.28.\<close>

lemma reencode_above:
  "list_all (\<lambda>q. 28 / 100 < q) (fst (reencode enc maxBytes quality blob))"
proof (induction enc maxBytes quality blob rule: reencode.induct)
  case (1 enc maxBytes quality blob)
  show ?case
  proof (cases blob)
    case None
    then show ?thesis by (simp add: reencode_None)
  next
    case (Some b)
    show ?thesis
    proof (cases "maxBytes < blob_size b \<and> 35 / 100 < quality")
      case False
      then show ?thesis using Some by (simp add: reencode_stop)
    next
      case True
      then show ?thesis using Some "1.IH"[OF Some True]
        by (simp add: reencode_step case_prod_beta)
    qed
  qed
qed

lemma reencode_oversize:
  assumes "\<forall>x. 35 / 100 \<le> x \<longrightarrow> (\<exists>b. enc x = Some b \<and> maxBytes < blob_size b)" "35 / 100 < q"
  shows "reencode enc maxBytes q (enc q) =
     (case reencode enc maxBytes (q - 7 / 100) (enc (q - 7 / 100)) of (qs, r) \<Rightarrow> ((q - 7 / 100) # qs, r))"
proof -
  from assms obtain b where "enc q = Some b" "maxBytes < blob_size b" by (meson less_imp_le)
  with assms(2) show ?thesis by (simp add: reencode_step)
qed

lemma reencode_exhaust_92:
  assumes "\<forall>x. 35 / 100 \<le> x \<longrightarrow> (\<exists>b. enc x = Some b \<and> maxBytes < blob_size b)"
  shows "reencode enc maxBytes (92 / 100) (enc (92 / 100)) =
    ([85 / 100, 78 / 100, 71 / 100, 64 / 100, 57 / 100, 50 / 100, 43 / 100, 36 / 100, 29 / 100], enc (29 / 100))"
  by (simp add: reencode_oversize[OF assms] reencode_low)

lemma reencode_exhaust_90:
  assumes "\<forall>x. 35 / 100 \<le> x \<longrightarrow> (\<exists>b. enc x = Some b \<and> maxBytes < blob_size b)"
  shows "reencode enc maxBytes (90 / 100) (enc (90 / 100)) =
    ([83 / 100, 76 / 100, 69 / 100, 62 / 100, 55 / 100, 48 / 100, 41 / 100, 34 / 100], enc (34 / 100))"
  by (simp add: reencode_oversize[OF assms] reencode_low)

lemma canvas_sizes_simps:
  "canvas_sizes [] = []"
  "canvas_sizes (Decode # cs) = canvas_sizes cs"
  "canvas_sizes (ToBlob w h q # cs) = (w, h) # canvas_sizes cs"
  by (simp_all add: canvas_sizes_def)

lemma canvas_sizes_map: "set (canvas_sizes (map (ToBlob w h) qs)) \<subseteq> {(w, h)}"
  by (induction qs) (simp_all add: canvas_sizes_simps)

text \<open>The same at the level of the two functions, when nothing fits the budget.\<close>

lemma compressImage_exhausted:
  assumes "decode env file = Some bitmap" "canvas_size maxW bitmap = (w, h)"
    "\<forall>x. 35 / 100 \<le> x \<longrightarrow> (\<exists>b. toBlob env file w h x = Some b \<and> maxBytes < blob_size b)"
  shows "compressImage env file maxBytes maxW =
    (Decode # map (ToBlob w h)
       [92 / 100, 85 / 100, 78 / 100, 71 / 100, 64 / 100, 57 / 100, 50 / 100, 43 / 100, 36 / 100, 29 / 100],
     case toBlob env file w h (29 / 100) of Some b \<Rightarrow> b | None \<Rightarrow> file)"
  using reencode_exhaust_92[OF assms(3)] by (simp add: compressImage_def assms(1,2))

lemma maybeCompress_exhausted:
  assumes "\<not> (of_nat (blob_size file) :: rat) \<le> 15 / 10 * 1024 * 1024"
    "decode env file = Some bitmap" "canvas_size 1600 bitmap = (w, h)"
    "\<forall>x. 35 / 100 \<le> x \<longrightarrow> (\<exists>b. toBlob env file w h x = Some b \<and> MAX_IMAGE_SIZE < blob_size b)"
  shows "maybeCompress env (Some file) =
    (Decode # map (ToBlob w h)
       [90 / 100, 83 / 100, 76 / 100, 69 / 100, 62 / 100, 55 / 100, 48 / 100, 41 / 100, 34 / 100],
     Inr (case toBlob env file w h (34 / 100) of Some b \<Rightarrow> b | None \<Rightarrow> file))"
  using assms(1) reencode_exhaust_90[OF assms(4)] by (simp add: maybeCompress_def assms(2,3))

lemma qualities_simps:
  "qualities [] = []"
  "qualities (Decode # cs) = qualities cs"
  "qualities (ToBlob w h q # cs) = q # qualities cs"
  by (simp_all add: qualities_def)

lemma qualities_map: "qualities (map (ToBlob w h) qs) = qs"
  by (induction qs) (simp_all add: qualities_simps)

lemma sequence_from_start:
  assumes "qs = map (\<lambda>k. q0 - of_nat (Suc k) * s) [0..<length qs]"
  shows "q0 # qs = map (\<lambda>k. q0 - of_nat k * (s :: rat)) [0..<Suc (length qs)]"
proof -
  have "map (\<lambda>k. q0 - of_nat k * s) [0..<Suc (length qs)] =
        (q0 - of_nat 0 * s) # map (\<lambda>k. q0 - of_nat k * s) [Suc 0..<Suc (length qs)]"
    by (simp add: upt_conv_Cons del: upt_Suc)
  also have "map (\<lambda>k. q0 - of_nat k * s) [Suc 0..<Suc (length qs)] =
        map (\<lambda>k. q0 - of_nat (Suc k) * s) [0..<length qs]"
    by (simp add: map_Suc_upt[symmetric] del: upt_Suc)
  finally show ?thesis using assms by simp
qed

text \<open>The qualities a run encodes at, for any starting quality.\<close>

lemma reencode_trace:
  "qualities (Decode # ToBlob w h q0 # map (ToBlob w h) (fst (reencode enc maxBytes q0 blob))) =
     map (\<lambda>k. q0 - of_nat k * (7 / 100))
       [0..<length (qualities (Decode # ToBlob w h q0 # map (ToBlob w h) (fst (reencode enc maxBytes q0 blob))))]
   \<and> length (qualities (Decode # ToBlob w h q0 # map (ToBlob w h) (fst (reencode enc maxBytes q0 blob))))
       \<le> Suc (nat \<lceil>(q0 - 35 / 100) * (100 / 7)\<rceil>)
   \<and> list_all (\<lambda>q. 28 / 100 < q) (fst (reencode enc maxBytes q0 blob))"
  using sequence_from_start[OF reencode_qualities[of enc maxBytes q0 blob]]
    reencode_length[of enc maxBytes q0 blob] reencode_above[of enc maxBytes q0 blob]
  by (simp add: qualities_simps qualities_map del: upt_Suc)

lemma compressImage_trace:
  assumes "decode env file = Some bitmap"
  shows "fst (compressImage env file maxBytes maxW) =
     Decode # ToBlob (fst (canvas_size maxW bitmap)) (snd (canvas_size maxW bitmap)) (92 / 100) #
       map (ToBlob (fst (canvas_size maxW bitmap)) (snd (canvas_size maxW bitmap)))
         (fst (reencode (toBlob env file (fst (canvas_size maxW bitmap)) (snd (canvas_size maxW bitmap)))
                maxBytes (92 / 100)
                (toBlob env file (fst (canvas_size maxW bitmap)) (snd (canvas_size maxW bitmap)) (92 / 100))))"
  by (simp add: compressImage_def assms case_prod_beta)

lemma maybeCompress_trace:
  assumes "decode env file = Some bitmap" "\<not> (of_nat (blob_size file) :: rat) \<le> 15 / 10 * 1024 * 1024"
  shows "fst (maybeCompress env (Some file)) =
     Decode # ToBlob (fst (canvas_size 1600 bitmap)) (snd (canvas_size 1600 bitmap)) (90 / 100) #
       map (ToBlob (fst (canvas_size 1600 bitmap)) (snd (canvas_size 1600 bitmap)))
         (fst (reencode (toBlob env file (fst (canvas_size 1600 bitmap)) (snd (canvas_size 1600 bitmap)))
                MAX_IMAGE_SIZE (90 / 100)
                (toBlob env file (fst (canvas_size 1600 bitmap)) (snd (canvas_size 1600 bitmap)) (90 / 100))))"
  using assms(2) by (simp add: maybeCompress_def assms(1) case_prod_beta)

text \<open>The canvases of the examples, the doubles step by step.\<close>

lemmas double_defs = to_double_def round_half_even_def pow2_def binade_def bit_length.simps
  floor_rat_numeral ceiling_rat_numeral

lemma canvas_1200_of_2000: "canvas_size 1200 (2000, 1000) = (1200, 600)"
proof -
  have r: "to_double (3 / 5) = 5404319552844595 / 9007199254740992"
    by (simp add: double_defs)
  have p: "to_double (1000 * (5404319552844595 / 9007199254740992)) = 600"
    by (simp add: double_defs)
  have "canvas_size 1200 (2000, 1000) = (1200, Math_round (to_double (1000 * to_double (3 / 5))))"
    by (simp add: canvas_size_def)
  also have "\<dots> = (1200, Math_round 600)" by (simp only: r p)
  also have "\<dots> = (1200, 600)" by (simp add: Math_round_def floor_rat_numeral)
  finally show ?thesis .
qed

lemma canvas_1600_of_2000: "canvas_size 1600 (2000, 1000) = (1600, 800)"
proof -
  have r: "to_double (4 / 5) = 3602879701896397 / 4503599627370496"
    by (simp add: double_defs)
  have p: "to_double (1000 * (3602879701896397 / 4503599627370496)) = 800"
    by (simp add: double_defs)
  have "canvas_size 1600 (2000, 1000) = (1600, Math_round (to_double (1000 * to_double (4 / 5))))"
    by (simp add: canvas_size_def)
  also have "\<dots> = (1600, Math_round 800)" by (simp only: r p)
  also have "\<dots> = (1600, 800)" by (simp add: Math_round_def floor_rat_numeral)
  finally show ?thesis .
qed

text \<open>
  A bitmap of 1696 by 159 pixels at a limit of 1200: the exact product is 112.5, the
  double product is just below it, and the height is 112.
\<close>

lemma canvas_1200_of_1696: "canvas_size 1200 (1696, 159) = (1200, 112)"
proof -
  have r: "to_double (75 / 106) = 3186509170309313 / 4503599627370496"
    by (simp add: double_defs)
  have p: "to_double (159 * (3186509170309313 / 4503599627370496)) = 7916483719987199 / 70368744177664"
    by (simp add: double_defs)
  have "canvas_size 1200 (1696, 159) = (1200, Math_round (to_double (159 * to_double (75 / 106))))"
    by (simp add: canvas_size_def)
  also have "\<dots> = (1200, Math_round (7916483719987199 / 70368744177664))" by (simp only: r p)
  also have "\<dots> = (1200, 112)" by (simp add: Math_round_def floor_rat_numeral)
  finally show ?thesis .
qed

text \<open>A bitmap of 3712 by 145 pixels at the limit of 1600: exactly 62.5, and the height is 62.\<close>

lemma canvas_1600_of_3712: "canvas_size 1600 (3712, 145) = (1600, 62)"
proof -
  have r: "to_double (25 / 58) = 3882413471871117 / 9007199254740992"
    by (simp add: double_defs)
  have p: "to_double (145 * (3882413471871117 / 9007199254740992)) = 8796093022207999 / 140737488355328"
    by (simp add: double_defs)
  have "canvas_size 1600 (3712, 145) = (1600, Math_round (to_double (145 * to_double (25 / 58))))"
    by (simp add: canvas_size_def)
  also have "\<dots> = (1600, Math_round (8796093022207999 / 140737488355328))" by (simp only: r p)
  also have "\<dots> = (1600, 62)" by (simp add: Math_round_def floor_rat_numeral)
  finally show ?thesis .
qed

lemma canvas_1600_of_1696: "canvas_size 1600 (1696, 159) = (1600, 150)"
proof -
  have r: "to_double (50 / 53) = 4248678893745751 / 4503599627370496"
    by (simp add: double_defs)
  have p: "to_double (159 * (4248678893745751 / 4503599627370496)) = 150"
    by (simp add: double_defs)
  have "canvas_size 1600 (1696, 159) = (1600, Math_round (to_double (159 * to_double (50 / 53))))"
    by (simp add: canvas_size_def)
  also have "\<dots> = (1600, Math_round 150)" by (simp only: r p)
  also have "\<dots> = (1600, 150)" by (simp add: Math_round_def floor_rat_numeral)
  finally show ?thesis .
qed

text \<open>The qualities of the browser, the doubles step by step.\<close>

lemma double_7: "to_double (7 / 100) = 1261007895663739 / 18014398509481984"
  by (simp add: double_defs)

lemma double_35: "to_double (35 / 100) = 3152519739159347 / 9007199254740992"
  by (simp add: double_defs)

lemma double_quality_92_0: "double_quality (92 / 100) 0 = 8286623314361713 / 9007199254740992"
  by (simp add: double_defs)

lemma double_quality_92_1: "double_quality (92 / 100) 1 = 1914029841632461 / 2251799813685248"
proof -
  have s: "to_double (8286623314361713 / 9007199254740992 - 1261007895663739 / 18014398509481984) = 1914029841632461 / 2251799813685248"
    by (simp add: double_defs)
  have "double_quality (92 / 100) 1 = to_double (double_quality (92 / 100) 0 - to_double (7 / 100))"
    by (simp add: eval_nat_numeral)
  also have "\<dots> = 1914029841632461 / 2251799813685248" by (simp only: double_quality_92_0 double_7 s)
  finally show ?thesis .
qed

lemma double_quality_92_2: "double_quality (92 / 100) 2 = 3512807709348987 / 4503599627370496"
proof -
  have s: "to_double (1914029841632461 / 2251799813685248 - 1261007895663739 / 18014398509481984) = 3512807709348987 / 4503599627370496"
    by (simp add: double_defs)
  have "double_quality (92 / 100) 2 = to_double (double_quality (92 / 100) 1 - to_double (7 / 100))"
    by (simp add: eval_nat_numeral)
  also have "\<dots> = 3512807709348987 / 4503599627370496" by (simp only: double_quality_92_1 double_7 s)
  finally show ?thesis .
qed

lemma double_quality_92_3: "double_quality (92 / 100) 3 = 799388933858263 / 1125899906842624"
proof -
  have s: "to_double (3512807709348987 / 4503599627370496 - 1261007895663739 / 18014398509481984) = 799388933858263 / 1125899906842624"
    by (simp add: double_defs)
  have "double_quality (92 / 100) 3 = to_double (double_quality (92 / 100) 2 - to_double (7 / 100))"
    by (simp add: eval_nat_numeral)
  also have "\<dots> = 799388933858263 / 1125899906842624" by (simp only: double_quality_92_2 double_7 s)
  finally show ?thesis .
qed

lemma double_quality_92_4: "double_quality (92 / 100) 4 = 2882303761517117 / 4503599627370496"
proof -
  have s: "to_double (799388933858263 / 1125899906842624 - 1261007895663739 / 18014398509481984) = 2882303761517117 / 4503599627370496"
    by (simp add: double_defs)
  have "double_quality (92 / 100) 4 = to_double (double_quality (92 / 100) 3 - to_double (7 / 100))"
    by (simp add: eval_nat_numeral)
  also have "\<dots> = 2882303761517117 / 4503599627370496" by (simp only: double_quality_92_3 double_7 s)
  finally show ?thesis .
qed

lemma double_quality_92_5: "double_quality (92 / 100) 5 = 1283525893800591 / 2251799813685248"
proof -
  have s: "to_double (2882303761517117 / 4503599627370496 - 1261007895663739 / 18014398509481984) = 1283525893800591 / 2251799813685248"
    by (simp add: double_defs)
  have "double_quality (92 / 100) 5 = to_double (double_quality (92 / 100) 4 - to_double (7 / 100))"
    by (simp add: eval_nat_numeral)
  also have "\<dots> = 1283525893800591 / 2251799813685248" by (simp only: double_quality_92_4 double_7 s)
  finally show ?thesis .
qed

lemma double_quality_92_6: "double_quality (92 / 100) 6 = 9007199254740989 / 18014398509481984"
proof -
  have s: "to_double (1283525893800591 / 2251799813685248 - 1261007895663739 / 18014398509481984) = 9007199254740989 / 18014398509481984"
    by (simp add: double_defs)
  have "double_quality (92 / 100) 6 = to_double (double_quality (92 / 100) 5 - to_double (7 / 100))"
    by (simp add: eval_nat_numeral)
  also have "\<dots> = 9007199254740989 / 18014398509481984" by (simp only: double_quality_92_5 double_7 s)
  finally show ?thesis .
qed

lemma double_quality_92_7: "double_quality (92 / 100) 7 = 3873095679538625 / 9007199254740992"
proof -
  have s: "to_double (9007199254740989 / 18014398509481984 - 1261007895663739 / 18014398509481984) = 3873095679538625 / 9007199254740992"
    by (simp add: double_defs)
  have "double_quality (92 / 100) 7 = to_double (double_quality (92 / 100) 6 - to_double (7 / 100))"
    by (simp add: eval_nat_numeral)
  also have "\<dots> = 3873095679538625 / 9007199254740992" by (simp only: double_quality_92_6 double_7 s)
  finally show ?thesis .
qed

lemma double_quality_92_8: "double_quality (92 / 100) 8 = 6485183463413511 / 18014398509481984"
proof -
  have s: "to_double (3873095679538625 / 9007199254740992 - 1261007895663739 / 18014398509481984) = 6485183463413511 / 18014398509481984"
    by (simp add: double_defs)
  have "double_quality (92 / 100) 8 = to_double (double_quality (92 / 100) 7 - to_double (7 / 100))"
    by (simp add: eval_nat_numeral)
  also have "\<dots> = 6485183463413511 / 18014398509481984" by (simp only: double_quality_92_7 double_7 s)
  finally show ?thesis .
qed

lemma double_quality_92_9: "double_quality (92 / 100) 9 = 1306043891937443 / 4503599627370496"
proof -
  have s: "to_double (6485183463413511 / 18014398509481984 - 1261007895663739 / 18014398509481984) = 1306043891937443 / 4503599627370496"
    by (simp add: double_defs)
  have "double_quality (92 / 100) 9 = to_double (double_quality (92 / 100) 8 - to_double (7 / 100))"
    by (simp add: eval_nat_numeral)
  also have "\<dots> = 1306043891937443 / 4503599627370496" by (simp only: double_quality_92_8 double_7 s)
  finally show ?thesis .
qed

lemma double_quality_90_0: "double_quality (90 / 100) 0 = 8106479329266893 / 9007199254740992"
  by (simp add: double_defs)

lemma double_quality_90_1: "double_quality (90 / 100) 1 = 467248461339689 / 562949953421312"
proof -
  have s: "to_double (8106479329266893 / 9007199254740992 - 1261007895663739 / 18014398509481984) = 467248461339689 / 562949953421312"
    by (simp add: double_defs)
  have "double_quality (90 / 100) 1 = to_double (double_quality (90 / 100) 0 - to_double (7 / 100))"
    by (simp add: eval_nat_numeral)
  also have "\<dots> = 467248461339689 / 562949953421312" by (simp only: double_quality_90_0 double_7 s)
  finally show ?thesis .
qed

lemma double_quality_90_2: "double_quality (90 / 100) 2 = 3422735716801577 / 4503599627370496"
proof -
  have s: "to_double (467248461339689 / 562949953421312 - 1261007895663739 / 18014398509481984) = 3422735716801577 / 4503599627370496"
    by (simp add: double_defs)
  have "double_quality (90 / 100) 2 = to_double (double_quality (90 / 100) 1 - to_double (7 / 100))"
    by (simp add: eval_nat_numeral)
  also have "\<dots> = 3422735716801577 / 4503599627370496" by (simp only: double_quality_90_1 double_7 s)
  finally show ?thesis .
qed

lemma double_quality_90_3: "double_quality (90 / 100) 3 = 1553741871442821 / 2251799813685248"
proof -
  have s: "to_double (3422735716801577 / 4503599627370496 - 1261007895663739 / 18014398509481984) = 1553741871442821 / 2251799813685248"
    by (simp add: double_defs)
  have "double_quality (90 / 100) 3 = to_double (double_quality (90 / 100) 2 - to_double (7 / 100))"
    by (simp add: eval_nat_numeral)
  also have "\<dots> = 1553741871442821 / 2251799813685248" by (simp only: double_quality_90_2 double_7 s)
  finally show ?thesis .
qed

lemma double_quality_90_4: "double_quality (90 / 100) 4 = 2792231768969707 / 4503599627370496"
proof -
  have s: "to_double (1553741871442821 / 2251799813685248 - 1261007895663739 / 18014398509481984) = 2792231768969707 / 4503599627370496"
    by (simp add: double_defs)
  have "double_quality (90 / 100) 4 = to_double (double_quality (90 / 100) 3 - to_double (7 / 100))"
    by (simp add: eval_nat_numeral)
  also have "\<dots> = 2792231768969707 / 4503599627370496" by (simp only: double_quality_90_3 double_7 s)
  finally show ?thesis .
qed

lemma double_quality_90_5: "double_quality (90 / 100) 5 = 619244948763443 / 1125899906842624"
proof -
  have s: "to_double (2792231768969707 / 4503599627370496 - 1261007895663739 / 18014398509481984) = 619244948763443 / 1125899906842624"
    by (simp add: double_defs)
  have "double_quality (90 / 100) 5 = to_double (double_quality (90 / 100) 4 - to_double (7 / 100))"
    by (simp add: eval_nat_numeral)
  also have "\<dots> = 619244948763443 / 1125899906842624" by (simp only: double_quality_90_4 double_7 s)
  finally show ?thesis .
qed

lemma double_quality_90_6: "double_quality (90 / 100) 6 = 8646911284551349 / 18014398509481984"
proof -
  have s: "to_double (619244948763443 / 1125899906842624 - 1261007895663739 / 18014398509481984) = 8646911284551349 / 18014398509481984"
    by (simp add: double_defs)
  have "double_quality (90 / 100) 6 = to_double (double_quality (90 / 100) 5 - to_double (7 / 100))"
    by (simp add: eval_nat_numeral)
  also have "\<dots> = 8646911284551349 / 18014398509481984" by (simp only: double_quality_90_5 double_7 s)
  finally show ?thesis .
qed

lemma double_quality_90_7: "double_quality (90 / 100) 7 = 3692951694443805 / 9007199254740992"
proof -
  have s: "to_double (8646911284551349 / 18014398509481984 - 1261007895663739 / 18014398509481984) = 3692951694443805 / 9007199254740992"
    by (simp add: double_defs)
  have "double_quality (90 / 100) 7 = to_double (double_quality (90 / 100) 6 - to_double (7 / 100))"
    by (simp add: eval_nat_numeral)
  also have "\<dots> = 3692951694443805 / 9007199254740992" by (simp only: double_quality_90_6 double_7 s)
  finally show ?thesis .
qed

lemma double_quality_90_8: "double_quality (90 / 100) 8 = 6124895493223871 / 18014398509481984"
proof -
  have s: "to_double (3692951694443805 / 9007199254740992 - 1261007895663739 / 18014398509481984) = 6124895493223871 / 18014398509481984"
    by (simp add: double_defs)
  have "double_quality (90 / 100) 8 = to_double (double_quality (90 / 100) 7 - to_double (7 / 100))"
    by (simp add: eval_nat_numeral)
  also have "\<dots> = 6124895493223871 / 18014398509481984" by (simp only: double_quality_90_7 double_7 s)
  finally show ?thesis .
qed

text \<open>
  From 0.92 and from 0.9 the doubles pass and fail the test of the loop in the same
  rounds as the exact qualities, and stay within \<open>1 / 10 ^ 15\<close> of them.
\<close>

lemma quality_in_doubles_92:
  "list_all (\<lambda>k. (to_double (35 / 100) < double_quality (92 / 100) k) = (35 / 100 < 92 / 100 - of_nat k * (7 / 100 :: rat))
                 \<and> \<bar>double_quality (92 / 100) k - (92 / 100 - of_nat k * (7 / 100))\<bar> < 1 / 10 ^ 15)
     [0, 1, 2, 3, 4, 5, 6, 7, 8, 9]"
  using double_quality_92_0 double_quality_92_1 double_quality_92_2 double_quality_92_3 double_quality_92_4 double_quality_92_5 double_quality_92_6 double_quality_92_7 double_quality_92_8 double_quality_92_9 double_35
  by simp

lemma quality_in_doubles_90:
  "list_all (\<lambda>k. (to_double (35 / 100) < double_quality (90 / 100) k) = (35 / 100 < 90 / 100 - of_nat k * (7 / 100 :: rat))
                 \<and> \<bar>double_quality (90 / 100) k - (90 / 100 - of_nat k * (7 / 100))\<bar> < 1 / 10 ^ 15)
     [0, 1, 2, 3, 4, 5, 6, 7, 8]"
  using double_quality_90_0 double_quality_90_1 double_quality_90_2 double_quality_90_3 double_quality_90_4 double_quality_90_5 double_quality_90_6 double_quality_90_7 double_quality_90_8 double_35
  by simp

lemma oversize_compressImage:
  "compressImage oversize_env (jpeg 5000000 0) MAX_UPLOAD_BYTES MAX_WIDTH =
     (Decode # map (ToBlob 1200 600)
        [92 / 100, 85 / 100, 78 / 100, 71 / 100, 64 / 100, 57 / 100, 50 / 100, 43 / 100, 36 / 100, 29 / 100],
      jpeg 20000000 29)"
  by (simp add: compressImage_def oversize_env_def MAX_WIDTH_def MAX_UPLOAD_BYTES_def canvas_1200_of_2000
      reencode.simps jpeg_def floor_rat_numeral)

lemma oversize_maybeCompress:
  "maybeCompress oversize_env (Some (jpeg 5000000 0)) =
     (Decode # map (ToBlob 1600 800)
        [90 / 100, 83 / 100, 76 / 100, 69 / 100, 62 / 100, 55 / 100, 48 / 100, 41 / 100, 34 / 100],
      Inr (jpeg 20000000 34))"
  by (simp add: maybeCompress_def oversize_env_def MAX_IMAGE_SIZE_def canvas_1600_of_2000
      reencode.simps jpeg_def floor_rat_numeral)

subsection \<open>The search for a quality\<close>

text \<open>
  Claim C6, as the code has it, for a file that decodes. \<^verbatim>\<open>compressImage\<close> encodes at
  0.92, then at 0.92 less 0.07, less 0.14 and so on, at most ten times in all (nine
  re-encodings), and every quality is above 0.28. The test \<^verbatim>\<open>quality > 0.35\<close> is made
  before the decrement, so the last quality can lie below 0.35: when every encoding
  at a quality of 0.35 or more is a blob over the budget, the ten encodings end at
  0.29, and what is returned is the blob made at 0.29 (the file, if that last
  encoding is \<^verbatim>\<open>null\<close>). \<^verbatim>\<open>maybeCompress\<close>, for a file of more than
  \<^verbatim>\<open>1.5 * 1024 * 1024\<close> bytes, does the same from 0.9 against \<^verbatim>\<open>MAX_IMAGE_SIZE\<close>: at
  most nine encodings, and when nothing fits they end at 0.34 with the blob made
  at 0.34. The qualities are the exact ones; those of the browser are the doubles
  next to them, \<open>double_quality\<close> above.
\<close>

theorem compress_quality_search:
  assumes "decode env file = Some bitmap"
  shows "qualities (fst (compressImage env file maxBytes maxW)) =
           map (\<lambda>k. 92 / 100 - of_nat k * (7 / 100))
             [0..<length (qualities (fst (compressImage env file maxBytes maxW)))]
         \<and> length (qualities (fst (compressImage env file maxBytes maxW))) \<le> 10
         \<and> list_all (\<lambda>q. 28 / 100 < q) (qualities (fst (compressImage env file maxBytes maxW)))
         \<and> ((\<forall>x. 35 / 100 \<le> x \<longrightarrow>
                (\<exists>b. toBlob env file (fst (canvas_size maxW bitmap)) (snd (canvas_size maxW bitmap)) x = Some b
                      \<and> maxBytes < blob_size b)) \<longrightarrow>
             compressImage env file maxBytes maxW =
               (Decode # map (ToBlob (fst (canvas_size maxW bitmap)) (snd (canvas_size maxW bitmap)))
                  [92 / 100, 85 / 100, 78 / 100, 71 / 100, 64 / 100, 57 / 100, 50 / 100, 43 / 100,
                   36 / 100, 29 / 100],
                case toBlob env file (fst (canvas_size maxW bitmap)) (snd (canvas_size maxW bitmap)) (29 / 100) of
                  Some b \<Rightarrow> b | None \<Rightarrow> file))
         \<and> (\<not> (of_nat (blob_size file) :: rat) \<le> 15 / 10 * 1024 * 1024 \<longrightarrow>
             qualities (fst (maybeCompress env (Some file))) =
               map (\<lambda>k. 90 / 100 - of_nat k * (7 / 100))
                 [0..<length (qualities (fst (maybeCompress env (Some file))))]
             \<and> length (qualities (fst (maybeCompress env (Some file)))) \<le> 9
             \<and> list_all (\<lambda>q. 28 / 100 < q) (qualities (fst (maybeCompress env (Some file))))
             \<and> ((\<forall>x. 35 / 100 \<le> x \<longrightarrow>
                    (\<exists>b. toBlob env file (fst (canvas_size 1600 bitmap)) (snd (canvas_size 1600 bitmap)) x = Some b
                          \<and> MAX_IMAGE_SIZE < blob_size b)) \<longrightarrow>
                 maybeCompress env (Some file) =
                   (Decode # map (ToBlob (fst (canvas_size 1600 bitmap)) (snd (canvas_size 1600 bitmap)))
                      [90 / 100, 83 / 100, 76 / 100, 69 / 100, 62 / 100, 55 / 100, 48 / 100, 41 / 100,
                       34 / 100],
                    Inr (case toBlob env file (fst (canvas_size 1600 bitmap)) (snd (canvas_size 1600 bitmap))
                                (34 / 100) of
                           Some b \<Rightarrow> b | None \<Rightarrow> file))))"
proof -
  let ?cw = "fst (canvas_size maxW bitmap)" and ?ch = "snd (canvas_size maxW bitmap)"
  let ?mw = "fst (canvas_size 1600 bitmap)" and ?mh = "snd (canvas_size 1600 bitmap)"
  have n92: "Suc (nat \<lceil>(92 / 100 - 35 / 100) * (100 / 7 :: rat)\<rceil>) = 10"
    by (simp add: ceiling_rat_numeral)
  have n90: "Suc (nat \<lceil>(90 / 100 - 35 / 100) * (100 / 7 :: rat)\<rceil>) = 9"
    by (simp add: ceiling_rat_numeral)
  note c = reencode_trace[of ?cw ?ch "92 / 100" "toBlob env file ?cw ?ch" maxBytes
      "toBlob env file ?cw ?ch (92 / 100)", folded compressImage_trace[OF assms, of maxBytes maxW],
      unfolded n92]
  have c1: "qualities (fst (compressImage env file maxBytes maxW)) =
           map (\<lambda>k. 92 / 100 - of_nat k * (7 / 100))
             [0..<length (qualities (fst (compressImage env file maxBytes maxW)))]"
    and c2: "length (qualities (fst (compressImage env file maxBytes maxW))) \<le> 10"
    using c by blast+
  have c3: "list_all (\<lambda>q. 28 / 100 < q) (qualities (fst (compressImage env file maxBytes maxW)))"
    using reencode_above[of "toBlob env file ?cw ?ch" maxBytes "92 / 100" "toBlob env file ?cw ?ch (92 / 100)"]
    by (simp add: compressImage_trace[OF assms] qualities_simps qualities_map)
  have c4: "(\<forall>x. 35 / 100 \<le> x \<longrightarrow> (\<exists>b. toBlob env file ?cw ?ch x = Some b \<and> maxBytes < blob_size b)) \<longrightarrow>
             compressImage env file maxBytes maxW =
               (Decode # map (ToBlob ?cw ?ch)
                  [92 / 100, 85 / 100, 78 / 100, 71 / 100, 64 / 100, 57 / 100, 50 / 100, 43 / 100,
                   36 / 100, 29 / 100],
                case toBlob env file ?cw ?ch (29 / 100) of Some b \<Rightarrow> b | None \<Rightarrow> file)"
    using compressImage_exhausted[OF assms, of maxW ?cw ?ch maxBytes] by simp
  have m: "\<not> (of_nat (blob_size file) :: rat) \<le> 15 / 10 * 1024 * 1024 \<longrightarrow>
             qualities (fst (maybeCompress env (Some file))) =
               map (\<lambda>k. 90 / 100 - of_nat k * (7 / 100))
                 [0..<length (qualities (fst (maybeCompress env (Some file))))]
             \<and> length (qualities (fst (maybeCompress env (Some file)))) \<le> 9
             \<and> list_all (\<lambda>q. 28 / 100 < q) (qualities (fst (maybeCompress env (Some file))))
             \<and> ((\<forall>x. 35 / 100 \<le> x \<longrightarrow>
                    (\<exists>b. toBlob env file ?mw ?mh x = Some b \<and> MAX_IMAGE_SIZE < blob_size b)) \<longrightarrow>
                 maybeCompress env (Some file) =
                   (Decode # map (ToBlob ?mw ?mh)
                      [90 / 100, 83 / 100, 76 / 100, 69 / 100, 62 / 100, 55 / 100, 48 / 100, 41 / 100,
                       34 / 100],
                    Inr (case toBlob env file ?mw ?mh (34 / 100) of Some b \<Rightarrow> b | None \<Rightarrow> file)))"
  proof
    assume big: "\<not> (of_nat (blob_size file) :: rat) \<le> 15 / 10 * 1024 * 1024"
    note t = maybeCompress_trace[OF assms big]
    note d = reencode_trace[of ?mw ?mh "90 / 100" "toBlob env file ?mw ?mh" MAX_IMAGE_SIZE
        "toBlob env file ?mw ?mh (90 / 100)", folded t, unfolded n90]
    have d1: "qualities (fst (maybeCompress env (Some file))) =
               map (\<lambda>k. 90 / 100 - of_nat k * (7 / 100))
                 [0..<length (qualities (fst (maybeCompress env (Some file))))]"
      and d2: "length (qualities (fst (maybeCompress env (Some file)))) \<le> 9"
      using d by blast+
    have d3: "list_all (\<lambda>q. 28 / 100 < q) (qualities (fst (maybeCompress env (Some file))))"
      using reencode_above[of "toBlob env file ?mw ?mh" MAX_IMAGE_SIZE "90 / 100"
          "toBlob env file ?mw ?mh (90 / 100)"]
      by (simp add: t qualities_simps qualities_map)
    have d4: "(\<forall>x. 35 / 100 \<le> x \<longrightarrow>
                    (\<exists>b. toBlob env file ?mw ?mh x = Some b \<and> MAX_IMAGE_SIZE < blob_size b)) \<longrightarrow>
                 maybeCompress env (Some file) =
                   (Decode # map (ToBlob ?mw ?mh)
                      [90 / 100, 83 / 100, 76 / 100, 69 / 100, 62 / 100, 55 / 100, 48 / 100, 41 / 100,
                       34 / 100],
                    Inr (case toBlob env file ?mw ?mh (34 / 100) of Some b \<Rightarrow> b | None \<Rightarrow> file))"
      using maybeCompress_exhausted[OF big assms, of ?mw ?mh] by simp
    from d1 d2 d3 d4 show "qualities (fst (maybeCompress env (Some file))) =
               map (\<lambda>k. 90 / 100 - of_nat k * (7 / 100))
                 [0..<length (qualities (fst (maybeCompress env (Some file))))]
             \<and> length (qualities (fst (maybeCompress env (Some file)))) \<le> 9
             \<and> list_all (\<lambda>q. 28 / 100 < q) (qualities (fst (maybeCompress env (Some file))))
             \<and> ((\<forall>x. 35 / 100 \<le> x \<longrightarrow>
                    (\<exists>b. toBlob env file ?mw ?mh x = Some b \<and> MAX_IMAGE_SIZE < blob_size b)) \<longrightarrow>
                 maybeCompress env (Some file) =
                   (Decode # map (ToBlob ?mw ?mh)
                      [90 / 100, 83 / 100, 76 / 100, 69 / 100, 62 / 100, 55 / 100, 48 / 100, 41 / 100,
                       34 / 100],
                    Inr (case toBlob env file ?mw ?mh (34 / 100) of Some b \<Rightarrow> b | None \<Rightarrow> file)))"
      by blast
  qed
  from c1 c2 c3 c4 m show ?thesis by blast
qed

theorem compress_quality_search_witness:
  "compressImage oversize_env (jpeg 5000000 0) MAX_UPLOAD_BYTES MAX_WIDTH =
     (Decode # map (ToBlob 1200 600)
        [92 / 100, 85 / 100, 78 / 100, 71 / 100, 64 / 100, 57 / 100, 50 / 100, 43 / 100, 36 / 100, 29 / 100],
      jpeg 20000000 29)
   \<and> maybeCompress oversize_env (Some (jpeg 5000000 0)) =
     (Decode # map (ToBlob 1600 800)
        [90 / 100, 83 / 100, 76 / 100, 69 / 100, 62 / 100, 55 / 100, 48 / 100, 41 / 100, 34 / 100],
      Inr (jpeg 20000000 34))
   \<and> length (qualities (fst (compressImage oversize_env (jpeg 5000000 0) MAX_UPLOAD_BYTES MAX_WIDTH))) = 10
   \<and> length (qualities (fst (maybeCompress oversize_env (Some (jpeg 5000000 0))))) = 9"
proof -
  have d: "decode oversize_env (jpeg 5000000 0) = Some (2000, 1000)" by (simp add: oversize_env_def)
  have big: "\<not> (of_nat (blob_size (jpeg 5000000 0)) :: rat) \<le> 15 / 10 * 1024 * 1024"
    by (simp add: jpeg_def)
  have h1: "\<forall>x. 35 / 100 \<le> x \<longrightarrow>
      (\<exists>b. toBlob oversize_env (jpeg 5000000 0) (fst (canvas_size MAX_WIDTH (2000, 1000)))
              (snd (canvas_size MAX_WIDTH (2000, 1000))) x = Some b \<and> MAX_UPLOAD_BYTES < blob_size b)"
    by (simp add: oversize_env_def jpeg_def MAX_UPLOAD_BYTES_def)
  have h2: "\<forall>x. 35 / 100 \<le> x \<longrightarrow>
      (\<exists>b. toBlob oversize_env (jpeg 5000000 0) (fst (canvas_size 1600 (2000, 1000)))
              (snd (canvas_size 1600 (2000, 1000))) x = Some b \<and> MAX_IMAGE_SIZE < blob_size b)"
    by (simp add: oversize_env_def jpeg_def MAX_IMAGE_SIZE_def)
  have l1: "toBlob oversize_env (jpeg 5000000 0) 1200 600 (29 / 100) = Some (jpeg 20000000 29)"
    by (simp add: oversize_env_def)
  have l2: "toBlob oversize_env (jpeg 5000000 0) 1600 800 (34 / 100) = Some (jpeg 20000000 34)"
    by (simp add: oversize_env_def)
  have c: "canvas_size MAX_WIDTH (2000, 1000) = (1200, 600)"
    by (simp add: MAX_WIDTH_def canvas_1200_of_2000)
  note t = compress_quality_search[OF d, of MAX_UPLOAD_BYTES MAX_WIDTH]
  from t h1 have a: "compressImage oversize_env (jpeg 5000000 0) MAX_UPLOAD_BYTES MAX_WIDTH =
     (Decode # map (ToBlob 1200 600)
        [92 / 100, 85 / 100, 78 / 100, 71 / 100, 64 / 100, 57 / 100, 50 / 100, 43 / 100, 36 / 100, 29 / 100],
      jpeg 20000000 29)"
    unfolding c fst_conv snd_conv l1 by simp
  from t h2 big have b: "maybeCompress oversize_env (Some (jpeg 5000000 0)) =
     (Decode # map (ToBlob 1600 800)
        [90 / 100, 83 / 100, 76 / 100, 69 / 100, 62 / 100, 55 / 100, 48 / 100, 41 / 100, 34 / 100],
      Inr (jpeg 20000000 34))"
    unfolding canvas_1600_of_2000 fst_conv snd_conv l2 by simp
  have n1: "length (qualities (fst (compressImage oversize_env (jpeg 5000000 0) MAX_UPLOAD_BYTES MAX_WIDTH))) = 10"
    unfolding a by (simp add: qualities_simps)
  have n2: "length (qualities (fst (maybeCompress oversize_env (Some (jpeg 5000000 0))))) = 9"
    unfolding b by (simp add: qualities_simps)
  from a b n1 n2 show ?thesis by blast
qed

text \<open>
  That no quality below the bound is used, and that the blob returned is the one
  made at the bound, fails where nothing fits. A file of 5 000 000 bytes, which
  \<^verbatim>\<open>validateImageFile\<close> accepts and whose every encoding is over the budget, is
  encoded nine times by \<^verbatim>\<open>maybeCompress\<close>, the last time at 0.34, and the blob of that
  last encoding is returned; \<^verbatim>\<open>compressImage\<close> encodes it ten times, the last time at
  0.29.
\<close>

theorem quality_floor_counterexample:
  "maybeCompress oversize_env (Some (jpeg 5000000 0)) =
     (Decode # map (ToBlob 1600 800)
        [90 / 100, 83 / 100, 76 / 100, 69 / 100, 62 / 100, 55 / 100, 48 / 100, 41 / 100, 34 / 100],
      Inr (jpeg 20000000 34))
   \<and> (34 / 100 :: rat) < 35 / 100
   \<and> compressImage oversize_env (jpeg 5000000 0) MAX_UPLOAD_BYTES MAX_WIDTH =
     (Decode # map (ToBlob 1200 600)
        [92 / 100, 85 / 100, 78 / 100, 71 / 100, 64 / 100, 57 / 100, 50 / 100, 43 / 100, 36 / 100, 29 / 100],
      jpeg 20000000 29)
   \<and> (29 / 100 :: rat) < 35 / 100"
  using oversize_compressImage oversize_maybeCompress by simp

subsection \<open>The size of the canvas\<close>

text \<open>
  How far a double is from the number it rounds, and with that how far the height of
  the canvas is from the exact one.
\<close>

lemma bit_length_upper: "n < 2 ^ bit_length n"
proof (induction n rule: bit_length.induct)
  case (1 n)
  show ?case
  proof (cases "n = 0")
    case True
    then show ?thesis by (simp add: bit_length.simps)
  next
    case False
    with 1 have "n div 2 < 2 ^ bit_length (n div 2)" by simp
    then have "n < 2 * 2 ^ bit_length (n div 2)" by linarith
    with False show ?thesis by (subst bit_length.simps) simp
  qed
qed

lemma bit_length_lower: "0 < n \<Longrightarrow> 2 ^ (bit_length n - 1) \<le> n"
proof (induction n rule: bit_length.induct)
  case (1 n)
  show ?case
  proof (cases "n div 2 = 0")
    case True
    with 1(2) have "n = 1" by (simp add: div_eq_0_iff) 
    then show ?thesis by (simp add: bit_length.simps)
  next
    case False
    with 1 have ih: "2 ^ (bit_length (n div 2) - 1) \<le> n div 2" by simp
    from False have pos: "0 < bit_length (n div 2)" by (subst bit_length.simps) simp
    have "bit_length n = Suc (bit_length (n div 2))" using 1(2) by (subst bit_length.simps) simp
    then have "2 ^ (bit_length n - 1) = 2 * 2 ^ (bit_length (n div 2) - 1)"
      using pos by (cases "bit_length (n div 2)") simp_all
    also have "\<dots> \<le> 2 * (n div 2)" using ih by simp
    also have "\<dots> \<le> n" by simp
    finally show ?thesis .
  qed
qed

lemma bit_length_pos: "0 < n \<Longrightarrow> 0 < bit_length n"
  by (subst bit_length.simps) simp

lemma pow2_powi: "pow2 k = 2 powi k"
  by (simp add: pow2_def power_int_def inverse_eq_divide power_one_over)

lemma pow2_pos: "0 < pow2 k"
  by (simp add: pow2_powi)

lemma binade_bounds:
  assumes "0 < x"
  shows "pow2 (binade x) \<le> x \<and> x < 2 * pow2 (binade x)"
proof (cases "1 \<le> x")
  case True
  define n where "n = nat \<lfloor>x\<rfloor>"
  from True have n1: "1 \<le> \<lfloor>x\<rfloor>" by simp
  then have npos: "0 < n" by (simp add: n_def)
  have nx: "of_nat n \<le> x" using n1 by (simp add: n_def)
  have xn: "x < of_nat n + 1" using n1 by (simp add: n_def; linarith?)
  have b: "binade x = int (bit_length n) - 1" using True by (simp add: binade_def n_def)
  have e: "pow2 (binade x) = 2 ^ (bit_length n - 1)"
    using bit_length_pos[OF npos] by (simp add: b pow2_def nat_diff_distrib')
  have "(2::rat) ^ (bit_length n - 1) \<le> of_nat n"
    using bit_length_lower[OF npos] by (metis of_nat_le_iff of_nat_numeral of_nat_power)
  from this nx have "(2::rat) ^ (bit_length n - 1) \<le> x" by (rule order_trans)
  then have lo: "pow2 (binade x) \<le> x" by (simp only: e)
  have "Suc n \<le> 2 ^ bit_length n" using bit_length_upper[of n] by simp
  then have "(of_nat (Suc n) :: rat) \<le> 2 ^ bit_length n"
    by (metis of_nat_le_iff of_nat_numeral of_nat_power)
  moreover have "(2::rat) ^ bit_length n = 2 * 2 ^ (bit_length n - 1)"
    using bit_length_pos[OF npos] by (cases "bit_length n") simp_all
  ultimately have "of_nat n + 1 \<le> 2 * (2::rat) ^ (bit_length n - 1)" by simp
  with xn have "x < 2 * 2 ^ (bit_length n - 1)" by (rule less_le_trans)
  then have "x < 2 * pow2 (binade x)" by (simp only: e)
  with lo show ?thesis by simp
next
  case False
  define y where "y = 1 / x"
  from False assms have y1: "1 < y" by (simp add: y_def)
  define m where "m = nat (\<lceil>y\<rceil> - 1)"
  from y1 have c2: "2 \<le> \<lceil>y\<rceil>" by (simp add: le_ceiling_iff)  
  then have mpos: "0 < m" by (simp add: m_def)
  have my: "of_nat m < y" using c2 by (simp add: m_def; linarith?)
  have ym: "y \<le> of_nat m + 1" using c2 by (simp add: m_def; linarith?)
  have b: "binade x = - int (bit_length m)" using False by (simp add: binade_def m_def y_def)
  define k where "k = bit_length m"
  have kpos: "0 < k" using bit_length_pos[OF mpos] by (simp add: k_def)
  have e: "pow2 (binade x) = 1 / 2 ^ k"
    using kpos by (simp add: b pow2_def k_def)
  have "(2::rat) ^ (k - 1) \<le> of_nat m"
    using bit_length_lower[OF mpos] unfolding k_def by (metis of_nat_le_iff of_nat_numeral of_nat_power)
  from this my have l: "(2::rat) ^ (k - 1) < y" by (rule le_less_trans)
  have "Suc m \<le> 2 ^ k" using bit_length_upper[of m] by (simp add: k_def)
  then have "(of_nat (Suc m) :: rat) \<le> 2 ^ k"
    by (metis of_nat_le_iff of_nat_numeral of_nat_power)
  then have "of_nat m + 1 \<le> (2::rat) ^ k" by simp
  with ym have u: "y \<le> 2 ^ k" by (rule order_trans)
  have k2: "(2::rat) ^ k = 2 * 2 ^ (k - 1)" using kpos by (cases k) simp_all
  have x: "x = 1 / y" by (simp add: y_def)
  have ypos: "0 < y" using y1 by simp
  have lo: "1 / 2 ^ k \<le> x" unfolding x using u ypos by (simp add: frac_le)
  have "1 / y < 1 / 2 ^ (k - 1)" using l by (simp add: frac_less2)
  then have hi: "x < 2 * (1 / 2 ^ k)" unfolding x k2 by simp
  from lo hi show ?thesis by (simp add: e)
qed

lemma round_half_even_error: "\<bar>of_int (round_half_even y) - y\<bar> \<le> 1 / 2"
proof -
  have a: "of_int \<lfloor>y\<rfloor> \<le> y" and b: "y < of_int \<lfloor>y\<rfloor> + 1" by linarith+
  consider "y - of_int \<lfloor>y\<rfloor> < 1 / 2" | "1 / 2 < y - of_int \<lfloor>y\<rfloor>" | "y - of_int \<lfloor>y\<rfloor> = 1 / 2"
    by linarith
  then show ?thesis
  proof cases
    case 1
    then have "round_half_even y = \<lfloor>y\<rfloor>" by (simp add: round_half_even_def)
    with 1 a show ?thesis by (simp only: abs_le_iff) linarith
  next
    case 2
    then have "round_half_even y = \<lfloor>y\<rfloor> + 1" by (simp add: round_half_even_def)
    then have "of_int (round_half_even y) = of_int \<lfloor>y\<rfloor> + (1::rat)" by simp
    with 2 b show ?thesis by (simp only: abs_le_iff) linarith
  next
    case 3
    then have "round_half_even y = \<lfloor>y\<rfloor> \<or> round_half_even y = \<lfloor>y\<rfloor> + 1"
      by (simp add: round_half_even_def)
    then have "(of_int (round_half_even y) :: rat) = of_int \<lfloor>y\<rfloor>
        \<or> (of_int (round_half_even y) :: rat) = of_int \<lfloor>y\<rfloor> + 1"
      by auto
    with 3 show ?thesis by (auto simp only: abs_le_iff; linarith?)
  qed
qed


lemma pow2_half: "pow2 (e - 53) = pow2 (e - 52) / 2"
  by (simp add: pow2_powi power_int_diff)

lemma pow2_scale: "pow2 (e - 53) = pow2 e / 2 ^ 53"
  by (simp add: pow2_powi power_int_diff)

lemma to_double_error:
  assumes "0 < x"
  shows "\<bar>to_double x - x\<bar> \<le> x / 2 ^ 53"
proof -
  define u where "u = pow2 (binade x - 52)"
  have upos: "0 < u" by (simp add: u_def pow2_pos)
  define r where "r = round_half_even (x / u)"
  have td: "to_double x = of_int r * u"
    using assms by (simp add: to_double_def Let_def u_def r_def)
  have "\<bar>of_int r - x / u\<bar> \<le> 1 / 2" unfolding r_def by (rule round_half_even_error)
  then have "\<bar>of_int r - x / u\<bar> * u \<le> 1 / 2 * u" using upos by (simp only: mult_le_cancel_right_pos)
  moreover have "(of_int r - x / u) * u = of_int r * u - x"
    using upos by (simp add: left_diff_distrib)
  then have "\<bar>of_int r - x / u\<bar> * u = \<bar>of_int r * u - x\<bar>"
    using upos by (metis abs_mult abs_of_pos)
  ultimately have 1: "\<bar>to_double x - x\<bar> \<le> u / 2" by (simp add: td)
  have "u / 2 = pow2 (binade x) / 2 ^ 53" unfolding u_def by (simp add: pow2_half[symmetric] pow2_scale)
  also have "\<dots> \<le> x / 2 ^ 53" using binade_bounds[OF assms] by (simp add: divide_right_mono)
  finally show ?thesis using 1 by linarith
qed


lemma to_double_error0:
  assumes "0 \<le> x"
  shows "\<bar>to_double x - x\<bar> \<le> x * (1 / 2 ^ 53)"
proof (cases "x = 0")
  case True
  then show ?thesis by (simp add: to_double_def)
next
  case False
  with assms have "0 < x" by simp
  from to_double_error[OF this] show ?thesis by simp
qed

lemma scaled_height_nearest:
  fixes w h maxW :: nat
  assumes m0: "0 < maxW" and mw: "maxW < w" and small: "6 * (h * maxW) < 2 ^ 53"
  defines "H \<equiv> Math_round (to_double (of_nat h * to_double (of_nat maxW / of_nat w)))"
  shows "2 * w * H \<le> 2 * (h * maxW) + w \<and> 2 * (h * maxW) + w \<le> 2 * w * (H + 1)"
proof -
  define c :: rat where "c = 1 / 2 ^ 53"
  define W :: rat where "W = of_nat w"
  define q :: rat where "q = of_nat maxW / W"
  define d1 where "d1 = to_double q"
  define p where "p = of_nat h * d1"
  define d2 where "d2 = to_double p"
  define e where "e = of_nat h * q"
  define N :: rat where "N = of_nat (h * maxW)"
  have Wpos: "0 < W" using mw by (simp add: W_def)
  have c0: "0 < c" and c1: "c \<le> 1" by (simp_all add: c_def)
  have q0: "0 \<le> q" using Wpos by (simp add: q_def)
  have e0: "0 \<le> e" using q0 by (simp add: e_def)
  have eW: "e * W = N" using Wpos by (simp add: e_def q_def N_def)
  have N0: "0 \<le> N" by (simp add: N_def)
  have "(of_nat (6 * (h * maxW)) :: rat) < of_nat (2 ^ 53)"
    using small by (simp only: of_nat_less_iff)
  then have N6: "6 * N * c < 1" by (simp add: N_def c_def)
  have b1: "\<bar>d1 - q\<bar> \<le> q * c"
    unfolding d1_def c_def by (rule to_double_error0[OF q0])
  have qc: "q * c \<le> q" using q0 c1 by (simp add: mult_left_le)
  have d10: "0 \<le> d1" using b1 qc by linarith
  have p0: "0 \<le> p" using d10 by (simp add: p_def)
  have b2: "\<bar>d2 - p\<bar> \<le> p * c"
    unfolding d2_def c_def by (rule to_double_error0[OF p0])
  have "p - e = of_nat h * (d1 - q)" by (simp add: p_def e_def right_diff_distrib)
  then have "\<bar>p - e\<bar> = of_nat h * \<bar>d1 - q\<bar>" by (simp add: abs_mult)
  also have "\<dots> \<le> of_nat h * (q * c)" using b1 by (simp add: mult_left_mono)
  also have "\<dots> = e * c" by (simp add: e_def)
  finally have b3: "\<bar>p - e\<bar> \<le> e * c" .
  have ec: "e * c \<le> e" using e0 c1 by (simp add: mult_left_le)
  have p2: "p \<le> 2 * e" using b3 ec by linarith
  have "p * c \<le> 2 * e * c" using p2 c0 by (simp add: mult_right_mono)
  with b2 b3 have b4: "\<bar>d2 - e\<bar> \<le> 3 * e * c" by linarith
  define dl where "dl = \<bar>d2 - e\<bar>"
  have dl0: "0 \<le> dl" by (simp add: dl_def)
  have "dl * (2 * W) \<le> 3 * e * c * (2 * W)"
    using b4 Wpos unfolding dl_def by (intro mult_right_mono) simp_all
  also have "\<dots> = 6 * (e * W) * c" by simp
  also have "\<dots> < 1" using N6 by (simp only: eW)
  finally have dW: "dl * (2 * W) < 1" .
  have up: "d2 \<le> e + dl" and lo: "e - dl \<le> d2" unfolding dl_def by linarith+
  have W1: "1 \<le> W" using mw by (simp add: W_def)
  have "dl * 2 \<le> dl * (2 * W)" using W1 dl0 by (simp add: mult_left_mono)
  with dW have dlh: "dl < 1 / 2" by linarith
  have x0: "0 \<le> d2 + 1 / 2" using lo e0 dlh by linarith
  define Hi where "Hi = \<lfloor>d2 + 1 / 2\<rfloor>"
  have Hi0: "0 \<le> Hi" using x0 by (simp add: Hi_def)
  have HH: "H = nat Hi" by (simp add: H_def Math_round_def Hi_def d2_def p_def d1_def q_def W_def)
  have Hr: "(of_nat H :: rat) = of_int Hi" using Hi0 by (simp add: HH)
  have f1: "of_nat H \<le> d2 + 1 / 2" and f2: "d2 + 1 / 2 < of_nat H + 1"
    unfolding Hr Hi_def by linarith+
  have "of_nat H \<le> e + dl + 1 / 2" using f1 up by linarith
  then have "of_nat H * (2 * W) \<le> (e + dl + 1 / 2) * (2 * W)"
    using Wpos by (intro mult_right_mono) simp_all
  also have "\<dots> = 2 * (e * W) + dl * (2 * W) + W" by (simp add: algebra_simps)
  also have "\<dots> < 2 * N + W + 1" using dW by (simp add: eW)
  finally have "(of_nat (2 * w * H) :: rat) < of_nat (2 * (h * maxW) + w + 1)"
    by (simp add: N_def W_def algebra_simps)
  then have g1: "2 * w * H < 2 * (h * maxW) + w + 1" by (simp only: of_nat_less_iff)
  have "e - dl + 1 / 2 < of_nat H + 1" using f2 lo by linarith
  then have "(e - dl + 1 / 2) * (2 * W) < (of_nat H + 1) * (2 * W)"
    using Wpos by (intro mult_strict_right_mono) simp_all
  moreover have "(e - dl + 1 / 2) * (2 * W) = 2 * (e * W) - dl * (2 * W) + W" by (simp add: algebra_simps)
  ultimately have "2 * N + W < (of_nat H + 1) * (2 * W) + 1" using dW by (simp add: eW)
  then have "(of_nat (2 * (h * maxW) + w) :: rat) < of_nat (2 * w * (H + 1) + 1)"
    by (simp add: N_def W_def algebra_simps)
  then have g2: "2 * (h * maxW) + w < 2 * w * (H + 1) + 1" by (simp only: of_nat_less_iff)
  from g1 g2 show ?thesis by linarith
qed

text \<open>
  With halves going up, the integer nearest to \<open>h * maxW / w\<close> is
  \<open>(2 * h * maxW + w) div (2 * w)\<close>. The height of the canvas is that integer
  whenever \<open>h * maxW / w\<close> is not half-way between two integers.
\<close>

lemma scaled_height_exact:
  fixes w h maxW :: nat
  assumes "0 < maxW" and "maxW < w" and "6 * (h * maxW) < 2 ^ 53"
    and "(2 * (h * maxW) + w) mod (2 * w) \<noteq> 0"
  shows "Math_round (to_double (of_nat h * to_double (of_nat maxW / of_nat w))) =
           (2 * (h * maxW) + w) div (2 * w)"
proof -
  define H where "H = Math_round (to_double (of_nat h * to_double (of_nat maxW / of_nat w)))"
  from scaled_height_nearest[OF assms(1-3)]
  have a: "2 * w * H \<le> 2 * (h * maxW) + w" and b: "2 * (h * maxW) + w \<le> 2 * w * (H + 1)"
    unfolding H_def by blast+
  have "(2 * w * (H + 1)) mod (2 * w) = 0" by simp
  with assms(4) have "2 * (h * maxW) + w \<noteq> 2 * w * (H + 1)" by metis
  with b have "2 * (h * maxW) + w < 2 * w * Suc H" by simp
  with a have "(2 * (h * maxW) + w) div (2 * w) = H" by (intro div_nat_eqI) simp_all
  then show ?thesis by (simp add: H_def)
qed

lemma canvas_size_nearest:
  assumes "0 < maxW" and "maxW < w" and "6 * (h * maxW) < 2 ^ 53"
  shows "(case canvas_size maxW (w, h) of (cw, ch) \<Rightarrow>
           cw = maxW \<and> 2 * w * ch \<le> 2 * (h * maxW) + w \<and> 2 * (h * maxW) + w \<le> 2 * w * (ch + 1))"
  using scaled_height_nearest[OF assms] assms(2) by (simp add: canvas_size_def)

lemma canvas_size_exact:
  assumes "0 < maxW" and "maxW < w" and "6 * (h * maxW) < 2 ^ 53"
    and "(2 * (h * maxW) + w) mod (2 * w) \<noteq> 0"
  shows "canvas_size maxW (w, h) = (maxW, (2 * (h * maxW) + w) div (2 * w))"
  using scaled_height_exact[OF assms] assms(2) by (simp add: canvas_size_def)

lemma compressImage_canvas:
  assumes "decode env file = Some bitmap"
  shows "set (canvas_sizes (fst (compressImage env file maxBytes maxW))) = {canvas_size maxW bitmap}"
  using canvas_sizes_map[of "fst (canvas_size maxW bitmap)" "snd (canvas_size maxW bitmap)"]
  by (auto simp: compressImage_trace[OF assms] canvas_sizes_simps)

lemma maybeCompress_canvas:
  assumes "decode env file = Some bitmap" and "\<not> (of_nat (blob_size file) :: rat) \<le> 15 / 10 * 1024 * 1024"
  shows "set (canvas_sizes (fst (maybeCompress env (Some file)))) = {canvas_size 1600 bitmap}"
  using canvas_sizes_map[of "fst (canvas_size 1600 bitmap)" "snd (canvas_size 1600 bitmap)"]
  by (auto simp: maybeCompress_trace[OF assms] canvas_sizes_simps)

text \<open>
  Claim C7, as the code has it. Whenever the file decodes, every encoding that
  \<^verbatim>\<open>compressImage\<close> makes is of one canvas, sized once: the size of the bitmap when its
  width is at most \<open>maxW\<close>, and otherwise \<open>maxW\<close> wide and
  \<^verbatim>\<open>Math.round(h * (maxW / w))\<close> high, the quotient and then the product each rounded
  to a double. For \<open>6 * h * maxW < 2 ^ 53\<close> that height \<open>ch\<close> is an integer nearest to
  \<open>h * maxW / w\<close>, that is \<open>2 * w * ch \<le> 2 * h * maxW + w \<le> 2 * w * (ch + 1)\<close>; it is
  \<open>h * maxW / w\<close> rounded with halves going up, \<open>(2 * h * maxW + w) div (2 * w)\<close>, whenever
  \<open>h * maxW / w\<close> is not half-way between two integers, and either neighbour when it
  is. \<^verbatim>\<open>maybeCompress\<close> does the same with 1600 for a file of more than
  \<^verbatim>\<open>1.5 * 1024 * 1024\<close> bytes; a file of at most that size it returns as it is, without
  any canvas, whatever the width of its bitmap.
\<close>

theorem compress_canvas_size:
  assumes "decode env file = Some (w, h)"
  shows "set (canvas_sizes (fst (compressImage env file maxBytes maxW))) =
           {if maxW < w
            then (maxW, Math_round (to_double (of_nat h * to_double (of_nat maxW / of_nat w))))
            else (w, h)}
         \<and> (0 < maxW \<and> maxW < w \<and> 6 * (h * maxW) < 2 ^ 53 \<longrightarrow>
              list_all (\<lambda>(cw, ch). cw = maxW \<and> 2 * w * ch \<le> 2 * (h * maxW) + w
                                  \<and> 2 * (h * maxW) + w \<le> 2 * w * (ch + 1))
                (canvas_sizes (fst (compressImage env file maxBytes maxW)))
              \<and> ((2 * (h * maxW) + w) mod (2 * w) \<noteq> 0 \<longrightarrow>
                   set (canvas_sizes (fst (compressImage env file maxBytes maxW))) =
                     {(maxW, (2 * (h * maxW) + w) div (2 * w))}))
         \<and> (if (of_nat (blob_size file) :: rat) \<le> 15 / 10 * 1024 * 1024
             then maybeCompress env (Some file) = ([], Inr file)
             else set (canvas_sizes (fst (maybeCompress env (Some file)))) =
                    {if 1600 < w
                     then (1600, Math_round (to_double (of_nat h * to_double (1600 / of_nat w))))
                     else (w, h)}
                  \<and> (1600 < w \<and> 6 * (h * 1600) < 2 ^ 53 \<longrightarrow>
                       list_all (\<lambda>(cw, ch). cw = 1600 \<and> 2 * w * ch \<le> 2 * (h * 1600) + w
                                           \<and> 2 * (h * 1600) + w \<le> 2 * w * (ch + 1))
                         (canvas_sizes (fst (maybeCompress env (Some file))))
                       \<and> ((2 * (h * 1600) + w) mod (2 * w) \<noteq> 0 \<longrightarrow>
                            set (canvas_sizes (fst (maybeCompress env (Some file)))) =
                              {(1600, (2 * (h * 1600) + w) div (2 * w))})))"
proof -
  have 1: "canvas_size m (w, h) =
           (if m < w then (m, Math_round (to_double (of_nat h * to_double (of_nat m / of_nat w)))) else (w, h))"
    for m by (simp add: canvas_size_def)
  have 5: "canvas_size 1600 (w, h) =
      (if 1600 < w then (1600, Math_round (to_double (of_nat h * to_double (1600 / of_nat w)))) else (w, h))"
    using 1[of 1600] by simp
  note c = compressImage_canvas[OF assms, of maxBytes maxW]
  have c1: "set (canvas_sizes (fst (compressImage env file maxBytes maxW))) =
           {if maxW < w
            then (maxW, Math_round (to_double (of_nat h * to_double (of_nat maxW / of_nat w))))
            else (w, h)}"
    using c unfolding 1[of maxW] .
  have c2: "list_all (\<lambda>(cw, ch). cw = maxW \<and> 2 * w * ch \<le> 2 * (h * maxW) + w
                                  \<and> 2 * (h * maxW) + w \<le> 2 * w * (ch + 1))
                (canvas_sizes (fst (compressImage env file maxBytes maxW)))"
    if "0 < maxW \<and> maxW < w \<and> 6 * (h * maxW) < 2 ^ 53"
    using canvas_size_nearest[of maxW w h] that by (simp add: list_all_iff c)
  have c3: "set (canvas_sizes (fst (compressImage env file maxBytes maxW))) =
                     {(maxW, (2 * (h * maxW) + w) div (2 * w))}"
    if "0 < maxW \<and> maxW < w \<and> 6 * (h * maxW) < 2 ^ 53" and "(2 * (h * maxW) + w) mod (2 * w) \<noteq> 0"
    using canvas_size_exact[of maxW w h] that by (simp add: c)
  have m0: "maybeCompress env (Some file) = ([], Inr file)"
    if "(of_nat (blob_size file) :: rat) \<le> 15 / 10 * 1024 * 1024"
    using that by (simp add: maybeCompress_def)
  have m1: "set (canvas_sizes (fst (maybeCompress env (Some file)))) =
                    {if 1600 < w
                     then (1600, Math_round (to_double (of_nat h * to_double (1600 / of_nat w))))
                     else (w, h)}"
    if "\<not> (of_nat (blob_size file) :: rat) \<le> 15 / 10 * 1024 * 1024"
    using maybeCompress_canvas[OF assms that] unfolding 5 .
  have m2: "list_all (\<lambda>(cw, ch). cw = 1600 \<and> 2 * w * ch \<le> 2 * (h * 1600) + w
                                           \<and> 2 * (h * 1600) + w \<le> 2 * w * (ch + 1))
                         (canvas_sizes (fst (maybeCompress env (Some file))))"
    if "\<not> (of_nat (blob_size file) :: rat) \<le> 15 / 10 * 1024 * 1024"
      and "1600 < w \<and> 6 * (h * 1600) < 2 ^ 53"
    using canvas_size_nearest[of 1600 w h] that(2)
    by (simp add: list_all_iff maybeCompress_canvas[OF assms that(1)])
  have m3: "set (canvas_sizes (fst (maybeCompress env (Some file)))) =
                              {(1600, (2 * (h * 1600) + w) div (2 * w))}"
    if "\<not> (of_nat (blob_size file) :: rat) \<le> 15 / 10 * 1024 * 1024"
      and "1600 < w \<and> 6 * (h * 1600) < 2 ^ 53" and "(2 * (h * 1600) + w) mod (2 * w) \<noteq> 0"
    using canvas_size_exact[of 1600 w h] that(2,3)
    by (simp add: maybeCompress_canvas[OF assms that(1)])
  from c1 c2 c3 m0 m1 m2 m3 show ?thesis by presburger
qed

text \<open>
  Two bitmaps. At 1696 by 159 pixels and a limit of 1200 the exact height is 112.5,
  half-way: the double product is just below it and the canvas is 112 high, where
  rounding the exact height with halves going up gives 113; at the limit of 1600
  the exact height is 150. At 2000 by 1000 pixels and a limit of 1200 it is 600.
\<close>

theorem compress_canvas_size_witness:
  "decode tie_env (jpeg 5000000 0) = Some (1696, 159)
   \<and> set (canvas_sizes (fst (compressImage tie_env (jpeg 5000000 0) MAX_UPLOAD_BYTES MAX_WIDTH))) = {(1200, 112)}
   \<and> (2 * (159 * 1200) + 1696) div (2 * 1696) = (113 :: nat)
   \<and> set (canvas_sizes (fst (maybeCompress tie_env (Some (jpeg 5000000 0))))) = {(1600, 150)}
   \<and> decode oversize_env (jpeg 5000000 0) = Some (2000, 1000)
   \<and> set (canvas_sizes (fst (compressImage oversize_env (jpeg 5000000 0) MAX_UPLOAD_BYTES MAX_WIDTH))) = {(1200, 600)}"
proof -
  have d: "decode tie_env (jpeg 5000000 0) = Some (1696, 159)" by (simp add: tie_env_def)
  have e: "decode oversize_env (jpeg 5000000 0) = Some (2000, 1000)" by (simp add: oversize_env_def)
  have big: "\<not> (of_nat (blob_size (jpeg 5000000 0)) :: rat) \<le> 15 / 10 * 1024 * 1024"
    by (simp add: jpeg_def)
  have c1: "(if MAX_WIDTH < 1696
            then (MAX_WIDTH, Math_round (to_double (of_nat 159 * to_double (of_nat MAX_WIDTH / of_nat 1696))))
            else (1696, 159)) = (1200, 112)"
    using canvas_1200_of_1696 by (simp add: canvas_size_def MAX_WIDTH_def)
  note t = compress_canvas_size[OF d, of MAX_UPLOAD_BYTES MAX_WIDTH]
  note u = compress_canvas_size[OF e, of MAX_UPLOAD_BYTES MAX_WIDTH]
  have a: "set (canvas_sizes (fst (compressImage tie_env (jpeg 5000000 0) MAX_UPLOAD_BYTES MAX_WIDTH))) =
      {(1200, 112)}"
    using t[THEN conjunct1] unfolding c1 .
  have h1: "(1600 :: nat) < 1696 \<and> (6 :: nat) * (159 * 1600) < 2 ^ 53" by simp
  have h2: "(2 * (159 * 1600) + 1696) mod (2 * 1696) \<noteq> (0 :: nat)" by simp
  have v: "(2 * (159 * 1600) + 1696) div (2 * 1696) = (150 :: nat)" by simp
  note t3 = t[THEN conjunct2, THEN conjunct2, unfolded if_not_P[OF big]]
  have b: "set (canvas_sizes (fst (maybeCompress tie_env (Some (jpeg 5000000 0))))) =
      {(1600, (2 * (159 * 1600) + 1696) div (2 * 1696))}"
    by (rule t3[THEN conjunct2, THEN mp, OF h1, THEN conjunct2, THEN mp, OF h2])
  have h3: "0 < MAX_WIDTH \<and> MAX_WIDTH < 2000 \<and> 6 * (1000 * MAX_WIDTH) < 2 ^ 53"
    by (simp add: MAX_WIDTH_def)
  have h4: "(2 * (1000 * MAX_WIDTH) + 2000) mod (2 * 2000) \<noteq> 0" by (simp add: MAX_WIDTH_def)
  have x: "(MAX_WIDTH, (2 * (1000 * MAX_WIDTH) + 2000) div (2 * 2000)) = (1200, 600)"
    by (simp add: MAX_WIDTH_def)
  have c: "set (canvas_sizes (fst (compressImage oversize_env (jpeg 5000000 0) MAX_UPLOAD_BYTES MAX_WIDTH))) =
      {(MAX_WIDTH, (2 * (1000 * MAX_WIDTH) + 2000) div (2 * 2000))}"
    by (rule u[THEN conjunct2, THEN conjunct1, THEN mp, OF h3, THEN conjunct2, THEN mp, OF h4])
  have w: "(2 * (159 * 1200) + 1696) div (2 * 1696) = (113 :: nat)" by simp
  from a b c d e w show ?thesis unfolding v x by simp
qed

text \<open>
  That every image wider than the limit comes out at the limit fails for
  \<^verbatim>\<open>maybeCompress\<close> on a small file: 1 000 000 bytes that decode to 2000 by 1000
  pixels are returned as they are, with no call to the browser.
\<close>

theorem small_wide_file_counterexample:
  "decode oversize_env (jpeg 1000000 0) = Some (2000, 1000)
   \<and> (1600 :: nat) < 2000
   \<and> maybeCompress oversize_env (Some (jpeg 1000000 0)) = ([], Inr (jpeg 1000000 0))"
  by (simp add: codec_defs)

subsection \<open>A file that does not decode\<close>

text \<open>
  Claim C8 at a file of 2 000 000 bytes that the browser cannot decode.
  \<^verbatim>\<open>compressImage\<close> returns the file, as the claim says. \<^verbatim>\<open>maybeCompress\<close> rejects with
  the error of the decoder, and \<^verbatim>\<open>analyzeImage\<close>, which accepts the file, then shows
  \<^verbatim>\<open>Analysis failed\<close> and uploads nothing.
\<close>

theorem maybeCompress_decode_failure:
  "maybeCompress undecodable_env (Some (jpeg 2000000 0)) = ([Decode], Inl DecodeError)
   \<and> compressImage undecodable_env (jpeg 2000000 0) MAX_UPLOAD_BYTES MAX_WIDTH = ([Decode], jpeg 2000000 0)
   \<and> validateImageFile (Some (jpeg 2000000 0)) = None
   \<and> analyzeImage rt undecodable_env True (Some (jpeg 2000000 0)) ev =
       ([ShowAnalyzing, ShowAnalysisFailed DecodeError, RestoreButton], Returned)"
  by (simp add: codec_defs analyzeImage_def validateImageFile_def ALLOWED_TYPES_def)

subsection \<open>Small files\<close>

text \<open>
  Claim C10. A file of at most \<^verbatim>\<open>1.5 * 1024 * 1024\<close> = 1 572 864 bytes is returned by
  \<^verbatim>\<open>maybeCompress\<close> as it is, and the browser is asked neither to decode nor to
  encode anything.
\<close>

theorem maybeCompress_small_file:
  assumes "blob_size file \<le> 1572864"
  shows "maybeCompress env (Some file) = ([], Inr file)"
proof -
  from assms have "(of_nat (blob_size file) :: rat) \<le> of_nat 1572864" by (simp only: of_nat_le_iff)
  then have "(of_nat (blob_size file) :: rat) \<le> 15 / 10 * 1024 * 1024" by simp
  then show ?thesis by (simp add: maybeCompress_def)
qed

theorem maybeCompress_small_file_witness:
  "blob_size (jpeg 1000000 0) \<le> 1572864
   \<and> decode oversize_env (jpeg 1000000 0) = Some (2000, 1000)
   \<and> maybeCompress oversize_env (Some (jpeg 1000000 0)) = ([], Inr (jpeg 1000000 0))"
proof -
  have h: "blob_size (jpeg 1000000 0) \<le> 1572864" by (simp add: jpeg_def)
  have d: "decode oversize_env (jpeg 1000000 0) = Some (2000, 1000)" by (simp add: oversize_env_def)
  from maybeCompress_small_file[OF h, of oversize_env] h d show ?thesis by simp
qed

section \<open>Properties of the transport and of the analyze operation\<close>

subsection \<open>A response with an error status\<close>

text \<open>
  Claim C4, as the code has it. On a status outside 200..299 \<^verbatim>\<open>uploadWithProgress\<close> of
  \<^verbatim>\<open>script.js\<close> rejects with \<^verbatim>\<open>Upload failed\<close> and the status, whatever the body is,
  and \<^verbatim>\<open>analyzeImage\<close>, for a file it accepts and can compress, then shows
  \<^verbatim>\<open>Analysis failed\<close> with that error: \<^verbatim>\<open>normalizeResponse\<close> is not called and nothing
  is rendered.
\<close>

theorem upload_non_2xx:
  assumes "\<not> (200 \<le> status x \<and> status x < 300)"
  shows "uploadWithProgress (Load x) = Rejected (UploadFailed (status x))
         \<and> (validateImageFile (Some file) = None \<and> snd (maybeCompress env (Some file)) = Inr compressed \<longrightarrow>
              analyzeImage rt env True (Some file) (Load x) =
                ([ShowAnalyzing, ShowAnalysisFailed (UploadFailed (status x)), RestoreButton], Returned))"
  using assms by (auto simp: uploadWithProgress_def analyzeImage_def)

theorem upload_non_2xx_witness:
  "\<not> (200 \<le> status \<lparr>status = 400, response = error_body\<rparr> \<and> status \<lparr>status = 400, response = error_body\<rparr> < 300)
   \<and> validateImageFile (Some (jpeg 1000000 0)) = None
   \<and> snd (maybeCompress oversize_env (Some (jpeg 1000000 0))) = Inr (jpeg 1000000 0)
   \<and> uploadWithProgress (Load \<lparr>status = 400, response = error_body\<rparr>) = Rejected (UploadFailed 400)
   \<and> analyzeImage plain_runtime oversize_env True (Some (jpeg 1000000 0))
       (Load \<lparr>status = 400, response = error_body\<rparr>) =
       ([ShowAnalyzing, ShowAnalysisFailed (UploadFailed 400), RestoreButton], Returned)"
proof -
  have s: "\<not> (200 \<le> status \<lparr>status = 400, response = error_body\<rparr>
               \<and> status \<lparr>status = 400, response = error_body\<rparr> < 300)"
    by simp
  have v: "validateImageFile (Some (jpeg 1000000 0)) = None"
    by (simp add: validateImageFile_def ALLOWED_TYPES_def MAX_IMAGE_SIZE_def jpeg_def)
  have c: "snd (maybeCompress oversize_env (Some (jpeg 1000000 0))) = Inr (jpeg 1000000 0)"
    by (simp add: maybeCompress_def jpeg_def)
  from upload_non_2xx[OF s, of "jpeg 1000000 0" oversize_env "jpeg 1000000 0" plain_runtime] s v c
  show ?thesis by simp
qed

text \<open>
  That a parsed body is resolved with fails: \<^verbatim>\<open>uploadWithProgress\<close> rejects the 400
  response of the development server although its body is a parsed object.
\<close>

theorem upload_rejected_counterexample:
  "truthy error_body
   \<and> uploadWithProgress (Load \<lparr>status = 400, response = error_body\<rparr>) = Rejected (UploadFailed 400)"
  by (simp add: uploadWithProgress_def error_body_def)

text \<open>
  \<^verbatim>\<open>uploadFileWithProgress\<close> of \<^verbatim>\<open>analyze.js\<close> is written the other way: on such a status
  it resolves with the parsed body when that is truthy (every object and array is)
  and rejects otherwise. That file does not load as it stands, so this is a property
  of the function as written and of nothing that runs.
\<close>

lemma uploadFileWithProgress_non_2xx:
  assumes "\<not> (200 \<le> status x \<and> status x < 300)"
  shows "uploadFileWithProgress (Load x) =
           (if truthy (response x) then Resolved (response x) else Rejected (UploadFailed (status x)))"
  using assms by (auto simp: uploadFileWithProgress_def)

subsection \<open>An upload that fails\<close>

text \<open>
  Claim C3, as the code has it. When the abort timer or the \<^verbatim>\<open>error\<close> event ends the
  upload, \<^verbatim>\<open>uploadWithProgress\<close> rejects with an error of its own for each of the two.
  \<^verbatim>\<open>analyzeImage\<close> of \<^verbatim>\<open>script.js\<close>, for a file it accepts and can compress, then
  neither calls \<^verbatim>\<open>normalizeResponse\<close> nor renders a result: its \<^verbatim>\<open>catch\<close> shows
  \<^verbatim>\<open>Analysis failed\<close> with the message of that error, and the function returns
  normally, so that its own caller is not given the error.
\<close>

theorem analyze_upload_failure:
  assumes "validateImageFile (Some file) = None"
    and "snd (maybeCompress env (Some file)) = Inr compressed"
    and "ev = TimerFired \<or> ev = ErrorEvent"
  shows "uploadWithProgress ev = Rejected (if ev = TimerFired then UploadTimeout else NetworkError)
         \<and> analyzeImage rt env True (Some file) ev =
           ([ShowAnalyzing, ShowAnalysisFailed (if ev = TimerFired then UploadTimeout else NetworkError),
             RestoreButton], Returned)"
  using assms by (auto simp: analyzeImage_def uploadWithProgress_def)

theorem analyze_upload_failure_witness:
  "validateImageFile (Some (jpeg 1000000 0)) = None
   \<and> snd (maybeCompress oversize_env (Some (jpeg 1000000 0))) = Inr (jpeg 1000000 0)
   \<and> analyzeImage plain_runtime oversize_env True (Some (jpeg 1000000 0)) TimerFired =
       ([ShowAnalyzing, ShowAnalysisFailed UploadTimeout, RestoreButton], Returned)
   \<and> analyzeImage plain_runtime oversize_env True (Some (jpeg 1000000 0)) ErrorEvent =
       ([ShowAnalyzing, ShowAnalysisFailed NetworkError, RestoreButton], Returned)"
proof -
  have v: "validateImageFile (Some (jpeg 1000000 0)) = None"
    by (simp add: validateImageFile_def ALLOWED_TYPES_def MAX_IMAGE_SIZE_def jpeg_def)
  have c: "snd (maybeCompress oversize_env (Some (jpeg 1000000 0))) = Inr (jpeg 1000000 0)"
    by (simp add: maybeCompress_def jpeg_def)
  from analyze_upload_failure[OF v c, of TimerFired plain_runtime]
    analyze_upload_failure[OF v c, of ErrorEvent plain_runtime] v c
  show ?thesis by simp
qed

text \<open>
  That the failure reaches the caller of the operation as an error fails: after a
  timeout \<^verbatim>\<open>analyzeImage\<close> completes normally, and does not throw the error of the
  upload.
\<close>

theorem analyze_returns_counterexample:
  "uploadWithProgress TimerFired = Rejected UploadTimeout
   \<and> snd (analyzeImage plain_runtime oversize_env True (Some (jpeg 1000000 0)) TimerFired) = Returned
   \<and> snd (analyzeImage plain_runtime oversize_env True (Some (jpeg 1000000 0)) TimerFired) \<noteq> Threw UploadTimeout"
  by (simp add: analyzeImage_def uploadWithProgress_def validateImageFile_def ALLOWED_TYPES_def
      MAX_IMAGE_SIZE_def maybeCompress_def jpeg_def)

end
